theory Spec2Isabelle
  imports Complex_Main "HOL-Library.Multiset"
begin

section \<open>Numbers\<close>

text \<open>
  The program is TypeScript. Counts and lengths are non-negative integers; the scoring
  formulas divide and multiply them by decimal constants and round the result. The
  embedding computes these formulas over the rationals, so \<open>0.5\<close>, \<open>0.35\<close>,
  \<open>0.7\<close>, \<open>0.6\<close> and \<open>0.8\<close> are the exact fractions. \<open>Math.round\<close> rounds to the
  nearest integer, a tie going up, \<open>Math.floor\<close> and \<open>Math.ceil\<close> are floor and ceiling.

  The program computes in IEEE doubles. The two agree wherever the program rounds a value
  it can reach: the clamped \<open>Math.floor(L * 0.7)\<close> of the windower for every block length,
  \<open>Math.ceil(10 * 0.6)\<close>, the average of a day, the similarity threshold on fingerprints of
  at most 200 characters, the track score of a log of at most ten answers (a track asks at
  most ten questions) and the total of two track scores. On a longer answer log the double
  sum can fall just below a tie that the exact sum reaches; there the embedding is an
  idealisation of the program.
\<close>

definition Math_round :: "rat \<Rightarrow> int" where
  "Math_round x = \<lfloor>x + 1 / 2\<rfloor>"

definition Math_floor :: "rat \<Rightarrow> int" where
  "Math_floor x = \<lfloor>x\<rfloor>"

definition Math_ceil :: "rat \<Rightarrow> int" where
  "Math_ceil x = \<lceil>x\<rceil>"

section \<open>Strings\<close>

text \<open>
  A JavaScript string is a sequence of UTF-16 code units and \<open>length\<close> counts them. A code
  unit is modelled as a natural number and a string as the list of its code units; \<open>str\<close>
  embeds an ASCII literal.
\<close>

type_synonym jschar = nat
type_synonym jsstring = "jschar list"

definition str :: "string \<Rightarrow> jsstring" where
  "str s = map of_char s"

text \<open>
  White space as \<open>String.prototype.trim\<close> and the regular expression class \<open>\s\<close> see it:
  TAB, LF, VT, FF, CR, SPACE, NBSP, U+1680, U+2000 to U+200A, U+2028, U+2029, U+202F, U+205F,
  U+3000 and U+FEFF.
\<close>

definition is_ws :: "jschar \<Rightarrow> bool" where
  "is_ws c =
     (c \<in> set [9, 10, 11, 12, 13, 32, 160, 5760, 8232, 8233, 8239, 8287, 12288, 65279]
      \<or> (8192 \<le> c \<and> c \<le> 8202))"

text \<open>The class \<open>\w\<close>: ASCII letters, digits and the underscore.\<close>

definition is_word :: "jschar \<Rightarrow> bool" where
  "is_word c =
     ((97 \<le> c \<and> c \<le> 122) \<or> (65 \<le> c \<and> c \<le> 90) \<or> (48 \<le> c \<and> c \<le> 57) \<or> c = 95)"

text \<open>The class \<open>[A-Z]\<close>.\<close>

definition is_upper :: "jschar \<Rightarrow> bool" where
  "is_upper c = (65 \<le> c \<and> c \<le> 90)"

definition trim :: "jsstring \<Rightarrow> jsstring" where
  "trim s = rev (dropWhile is_ws (rev (dropWhile is_ws s)))"

definition startsWith :: "jsstring \<Rightarrow> jsstring \<Rightarrow> bool" where
  "startsWith s p = (take (length p) s = p)"

text \<open>\<open>lines.join("\n")\<close>\<close>

fun join_nl :: "jsstring list \<Rightarrow> jsstring" where
  "join_nl [] = []"
| "join_nl [l] = l"
| "join_nl (l # ls) = l @ 10 # join_nl ls"

text \<open>\<open>s.split("\n")\<close>: the result is never empty, \<open>"".split("\n")\<close> is \<open>[""]\<close>.\<close>

fun split_nl :: "jsstring \<Rightarrow> jsstring list" where
  "split_nl [] = [[]]"
| "split_nl (c # cs) =
     (if c = 10 then [] # split_nl cs
      else (case split_nl cs of [] \<Rightarrow> [[c]] | l # ls \<Rightarrow> (c # l) # ls))"

text \<open>\<open>s.replace(/\s+/g, " ")\<close>: every maximal run of white space becomes one space.\<close>

function collapse_ws :: "jsstring \<Rightarrow> jsstring" where
  "collapse_ws [] = []"
| "collapse_ws (c # cs) =
     (if is_ws c then 32 # collapse_ws (dropWhile is_ws cs) else c # collapse_ws cs)"
  by pat_completeness auto
termination
  by (relation "measure length") (simp_all add: length_dropWhile_le le_imp_less_Suc)

text \<open>
  \<open>Array.prototype.slice(start, end)\<close>: a negative index counts from the end, both indices
  are clamped to the array, and an empty range gives the empty array.
\<close>

definition js_slice :: "'a list \<Rightarrow> int \<Rightarrow> int \<Rightarrow> 'a list" where
  "js_slice xs start end' =
     (let n = int (length xs);
          k = (if start < 0 then max (n + start) 0 else min start n);
          final = (if end' < 0 then max (n + end') 0 else min end' n)
      in take (nat (final - k)) (drop (nat k) xs))"

text \<open>\<open>xs.slice(start)\<close>: the end defaults to the length.\<close>

definition js_slice_from :: "'a list \<Rightarrow> int \<Rightarrow> 'a list" where
  "js_slice_from xs start = js_slice xs start (int (length xs))"

section \<open>Regular expressions\<close>

text \<open>
  The patterns of the program use literals, character classes, sequence, alternation, the
  quantifiers \<open>?\<close>, \<open>*\<close> and \<open>+\<close>, the anchors \<open>^\<close> and \<open>$\<close>, and one negative lookahead.
  They have no flags, so \<open>^\<close> is the start and \<open>$\<close> the end of the input. \<open>RegExp.test\<close>
  on a pattern \<open>^r\<close> asks whether some prefix of the input is in the language of \<open>r\<close>, and on
  \<open>^r$\<close> whether the whole input is. Both are decided with Brzozowski derivatives.
\<close>

datatype rx = Nul | Eps | Cls "jschar \<Rightarrow> bool" | Seq rx rx | Alt rx rx | Star rx

fun nullable :: "rx \<Rightarrow> bool" where
  "nullable Nul = False"
| "nullable Eps = True"
| "nullable (Cls p) = False"
| "nullable (Seq r s) = (nullable r \<and> nullable s)"
| "nullable (Alt r s) = (nullable r \<or> nullable s)"
| "nullable (Star r) = True"

fun deriv :: "jschar \<Rightarrow> rx \<Rightarrow> rx" where
  "deriv c Nul = Nul"
| "deriv c Eps = Nul"
| "deriv c (Cls p) = (if p c then Eps else Nul)"
| "deriv c (Seq r s) =
     (if nullable r then Alt (Seq (deriv c r) s) (deriv c s) else Seq (deriv c r) s)"
| "deriv c (Alt r s) = Alt (deriv c r) (deriv c s)"
| "deriv c (Star r) = Seq (deriv c r) (Star r)"

text \<open>\<open>/^r/.test(s)\<close>\<close>

fun rx_prefix :: "rx \<Rightarrow> jsstring \<Rightarrow> bool" where
  "rx_prefix r [] = nullable r"
| "rx_prefix r (c # cs) = (nullable r \<or> rx_prefix (deriv c r) cs)"

text \<open>\<open>/^r$/.test(s)\<close>\<close>

fun rx_full :: "rx \<Rightarrow> jsstring \<Rightarrow> bool" where
  "rx_full r [] = nullable r"
| "rx_full r (c # cs) = rx_full (deriv c r) cs"

text \<open>The language of a regular expression, to state what the two tests decide.\<close>

inductive_set star :: "jsstring set \<Rightarrow> jsstring set" for A :: "jsstring set" where
  star_nil: "[] \<in> star A"
| star_app: "u \<in> A \<Longrightarrow> v \<in> star A \<Longrightarrow> u @ v \<in> star A"

fun lang :: "rx \<Rightarrow> jsstring set" where
  "lang Nul = {}"
| "lang Eps = {[]}"
| "lang (Cls p) = {[c] | c. p c}"
| "lang (Seq r s) = {u @ v | u v. u \<in> lang r \<and> v \<in> lang s}"
| "lang (Alt r s) = lang r \<union> lang s"
| "lang (Star r) = star (lang r)"

text \<open>Abbreviations for writing the patterns down.\<close>

definition Chr :: "jschar \<Rightarrow> rx" where
  "Chr c = Cls (\<lambda>x. x = c)"

definition Lit :: "jsstring \<Rightarrow> rx" where
  "Lit s = foldr (\<lambda>c r. Seq (Chr c) r) s Eps"

definition Plus :: "rx \<Rightarrow> rx" where
  "Plus r = Seq r (Star r)"

definition Opt :: "rx \<Rightarrow> rx" where
  "Opt r = Alt r Eps"

definition Alts :: "rx list \<Rightarrow> rx" where
  "Alts rs = foldr Alt rs Nul"

definition Seqs :: "rx list \<Rightarrow> rx" where
  "Seqs rs = foldr Seq rs Eps"

definition OneOf :: "jsstring \<Rightarrow> rx" where
  "OneOf s = Cls (\<lambda>x. x \<in> set s)"

definition ws :: rx where
  "ws = Cls is_ws"

definition nws :: rx where
  "nws = Cls (\<lambda>c. \<not> is_ws c)"

definition wd :: rx where
  "wd = Cls is_word"

definition upper :: rx where
  "upper = Cls is_upper"

definition kw :: "string \<Rightarrow> rx" where
  "kw s = Lit (str s)"

section \<open>Constants and pattern tables\<close>

definition MEMORY_QUESTIONS :: nat where
  "MEMORY_QUESTIONS = 10"

definition COMMENT_QUESTIONS :: nat where
  "COMMENT_QUESTIONS = 10"

definition SAMPLE_COMMITS :: nat where
  "SAMPLE_COMMITS = 300"

definition MIN_SNIPPET_LINES :: nat where
  "MIN_SNIPPET_LINES = 4"

definition MAX_SNIPPET_LINES :: nat where
  "MAX_SNIPPET_LINES = 12"

text \<open>
  \<open>FIXED_PATTERNS\<close>, in the order of the source; each entry is the test of one pattern. The
  source lists \<open>/^package\s+/\<close> and \<open>/^import\s+/\<close> twice, and so does the table.
\<close>

definition FIXED_PATTERNS :: "(jsstring \<Rightarrow> bool) list" where
  \<open>FIXED_PATTERNS = [
     \<comment> \<open>/^import\s+/\<close>
     rx_prefix (Seqs [kw ''import'', Plus ws]),
     \<comment> \<open>/^export\s+(default\s+)?(\{|class|function|const|let|var|interface|type|enum)/\<close>
     rx_prefix (Seqs [kw ''export'', Plus ws, Opt (Seqs [kw ''default'', Plus ws]),
        Alts [kw ''{'', kw ''class'', kw ''function'', kw ''const'', kw ''let'', kw ''var'',
              kw ''interface'', kw ''type'', kw ''enum'']]),
     \<comment> \<open>/^const\s+\w+\s*=\s*use[A-Z]\w*\(/\<close>
     rx_prefix (Seqs [kw ''const'', Plus ws, Plus wd, Star ws, kw ''='', Star ws, kw ''use'',
        upper, Star wd, kw ''('']),
     \<comment> \<open>/^const\s*\[\s*\w+\s*,\s*set[A-Z]/\<close>
     rx_prefix (Seqs [kw ''const'', Star ws, kw ''['', Star ws, Plus wd, Star ws, kw '','',
        Star ws, kw ''set'', upper]),
     \<comment> \<open>/^const\s+\{\s*\w+\s*\}\s*=\s*use\w+/\<close>
     rx_prefix (Seqs [kw ''const'', Plus ws, kw ''{'', Star ws, Plus wd, Star ws, kw ''}'',
        Star ws, kw ''='', Star ws, kw ''use'', Plus wd]),
     \<comment> \<open>/^module\.exports/\<close>
     rx_prefix (kw ''module.exports''),
     \<comment> \<open>/^require\(/\<close>
     rx_prefix (kw ''require(''),
     \<comment> \<open>/^from\s+\S+\s+import/\<close>
     rx_prefix (Seqs [kw ''from'', Plus ws, Plus nws, Plus ws, kw ''import'']),
     \<comment> \<open>/^import\s+\S+/\<close>
     rx_prefix (Seqs [kw ''import'', Plus ws, Plus nws]),
     \<comment> \<open>/^def\s+__\w+__/\<close>
     rx_prefix (Seqs [kw ''def'', Plus ws, kw ''__'', Plus wd, kw ''__'']),
     \<comment> \<open>/^class\s+\w+\s*(\(|:)/\<close>
     rx_prefix (Seqs [kw ''class'', Plus ws, Plus wd, Star ws, Alts [kw ''('', kw '':'']]),
     \<comment> \<open>/^package\s+/\<close>
     rx_prefix (Seqs [kw ''package'', Plus ws]),
     \<comment> \<open>/^import\s*\(/\<close>
     rx_prefix (Seqs [kw ''import'', Star ws, kw ''(''] ),
     \<comment> \<open>/^func\s+\(\w+\s+\*?\w+\)\s+\w+/\<close>
     rx_prefix (Seqs [kw ''func'', Plus ws, kw ''('', Plus wd, Plus ws, Opt (kw ''*''), Plus wd,
        kw '')'', Plus ws, Plus wd]),
     \<comment> \<open>/^use\s+/\<close>
     rx_prefix (Seqs [kw ''use'', Plus ws]),
     \<comment> \<open>/^mod\s+/\<close>
     rx_prefix (Seqs [kw ''mod'', Plus ws]),
     \<comment> \<open>/^pub\s+(fn|struct|enum|trait|impl|mod|use|const|static)/\<close>
     rx_prefix (Seqs [kw ''pub'', Plus ws, Alts [kw ''fn'', kw ''struct'', kw ''enum'',
        kw ''trait'', kw ''impl'', kw ''mod'', kw ''use'', kw ''const'', kw ''static'']]),
     \<comment> \<open>/^package\s+/\<close>
     rx_prefix (Seqs [kw ''package'', Plus ws]),
     \<comment> \<open>/^import\s+/\<close>
     rx_prefix (Seqs [kw ''import'', Plus ws]),
     \<comment> \<open>/^public\s+(class|interface|enum)/\<close>
     rx_prefix (Seqs [kw ''public'', Plus ws,
        Alts [kw ''class'', kw ''interface'', kw ''enum'']]),
     \<comment> \<open>/^private\s+(class|interface|enum)/\<close>
     rx_prefix (Seqs [kw ''private'', Plus ws,
        Alts [kw ''class'', kw ''interface'', kw ''enum'']]),
     \<comment> \<open>/^require\s+/\<close>
     rx_prefix (Seqs [kw ''require'', Plus ws]),
     \<comment> \<open>/^require_relative\s+/\<close>
     rx_prefix (Seqs [kw ''require_relative'', Plus ws]),
     \<comment> \<open>/^module\s+/\<close>
     rx_prefix (Seqs [kw ''module'', Plus ws]),
     \<comment> \<open>/^#include\s+/\<close>
     rx_prefix (Seqs [kw ''#include'', Plus ws]),
     \<comment> \<open>/^#define\s+/\<close>
     rx_prefix (Seqs [kw ''#define'', Plus ws]),
     \<comment> \<open>/^#pragma\s+/\<close>
     rx_prefix (Seqs [kw ''#pragma'', Plus ws]),
     \<comment> \<open>/^using\s+namespace/\<close>
     rx_prefix (Seqs [kw ''using'', Plus ws, kw ''namespace'']),
     \<comment> \<open>/^[\{\}\[\]\(\);,]+$/\<close>
     rx_full (Plus (OneOf (str ''{}[]();,''))),
     \<comment> \<open>/^\s*$/\<close>
     rx_full (Star ws)]\<close>

text \<open>
  \<open>COMMENT_PATTERNS\<close>. The fourth pattern, \<open>/^#(?!\!)/\<close>, holds of a string that starts with
  \<open>#\<close> and does not start with \<open>#!\<close>. The double quote is code unit 34 and the single quote
  code unit 39.
\<close>

definition COMMENT_PATTERNS :: "(jsstring \<Rightarrow> bool) list" where
  \<open>COMMENT_PATTERNS = [
     \<comment> \<open>/^\/\//\<close>
     rx_prefix (kw ''//''),
     \<comment> \<open>/^\/\*/\<close>
     rx_prefix (kw ''/*''),
     \<comment> \<open>/^\*/\<close>
     rx_prefix (kw ''*''),
     \<comment> \<open>/^#(?!\!)/\<close>
     (\<lambda>s. rx_prefix (kw ''#'') s \<and> \<not> rx_prefix (kw ''#!'') s),
     \<comment> \<open>/^--/\<close>
     rx_prefix (kw ''--''),
     \<comment> \<open>/^"""/\<close>
     rx_prefix (Lit [34, 34, 34]),
     \<comment> \<open>/^'''/\<close>
     rx_prefix (Lit [39, 39, 39]),
     \<comment> \<open>/^;/\<close>
     rx_prefix (kw '';''),
     \<comment> \<open>/^\{-/\<close>
     rx_prefix (kw ''{-'')]\<close>

section \<open>Pattern classifier\<close>

definition isFixedPattern :: "jsstring \<Rightarrow> bool" where
  "isFixedPattern line =
     (let trimmed = trim line in list_ex (\<lambda>pattern. pattern trimmed) FIXED_PATTERNS)"

definition isCommentLine :: "jsstring \<Rightarrow> bool" where
  "isCommentLine line =
     (let trimmed = trim line in list_ex (\<lambda>pattern. pattern trimmed) COMMENT_PATTERNS)"

definition isNoiseLine :: "jsstring \<Rightarrow> bool" where
  \<open>isNoiseLine line =
     (let trimmed = trim line in
      if trimmed = [] then True
      else if length trimmed < 8 then True
      else if \<comment> \<open>/^[\{\}\[\]\(\);,\s]+$/\<close>
              rx_full (Plus (Cls (\<lambda>c. c \<in> set (str ''{}[]();,'') \<or> is_ws c))) trimmed
        then True
      else if \<comment> \<open>/^(else|end|endif|fi|done|esac|\}|\);?)$/\<close>
              rx_full (Alts [kw ''else'', kw ''end'', kw ''endif'', kw ''fi'', kw ''done'',
                             kw ''esac'', kw ''}'', Seq (kw '')'') (Opt (kw '';''))]) trimmed
        then True
      else False)\<close>

section \<open>Scoring engine\<close>

subsection \<open>Answers\<close>

datatype AnswerType = remember | familiar | uncertain | foreign

record answer =
  ans_type :: AnswerType
  ans_isMyCode :: bool

subsection \<open>calculateVibeMetrics\<close>

text \<open>The four counters of the first loop, over the self-authored answers.\<close>

record my_counters =
  myCodeRecognized :: nat
  myCodeFamiliar :: nat
  myCodeUncertain :: nat
  myCodeMisidentified :: nat

fun count_my :: "answer list \<Rightarrow> my_counters \<Rightarrow> my_counters" where
  "count_my [] c = c"
| "count_my (a # as) c =
     count_my as
       (case ans_type a of
          remember \<Rightarrow> c\<lparr>myCodeRecognized := myCodeRecognized c + 1\<rparr>
        | familiar \<Rightarrow> c\<lparr>myCodeFamiliar := myCodeFamiliar c + 1\<rparr>
        | uncertain \<Rightarrow> c\<lparr>myCodeUncertain := myCodeUncertain c + 1\<rparr>
        | foreign \<Rightarrow> c\<lparr>myCodeMisidentified := myCodeMisidentified c + 1\<rparr>)"

text \<open>The two counters of the second loop, over the other-authored answers.\<close>

record other_counters =
  otherCodeCorrect :: nat
  otherCodeFalseMemory :: nat

fun count_other :: "answer list \<Rightarrow> other_counters \<Rightarrow> other_counters" where
  "count_other [] c = c"
| "count_other (a # as) c =
     count_other as
       (case ans_type a of
          remember \<Rightarrow> c\<lparr>otherCodeFalseMemory := otherCodeFalseMemory c + 1\<rparr>
        | familiar \<Rightarrow> c\<lparr>otherCodeFalseMemory := otherCodeFalseMemory c + 1\<rparr>
        | uncertain \<Rightarrow> c\<lparr>otherCodeCorrect := otherCodeCorrect c + 1\<rparr>
        | foreign \<Rightarrow> c\<lparr>otherCodeCorrect := otherCodeCorrect c + 1\<rparr>)"

record vibe_metrics =
  vm_myCodeTotal :: nat
  vm_otherCodeTotal :: nat
  vm_myCodeRecognized :: nat
  vm_myCodeFamiliar :: nat
  vm_myCodeUncertain :: nat
  vm_myCodeMisidentified :: nat
  vm_otherCodeCorrect :: nat
  vm_otherCodeFalseMemory :: nat
  vibeScore :: int

text \<open>\<open>n || 1\<close> on a length: the length, or 1 when it is 0.\<close>

definition or_one :: "nat \<Rightarrow> nat" where
  "or_one n = (if n = 0 then 1 else n)"

text \<open>
  The local constant \<open>vibeScore\<close> of \<open>calculateVibeMetrics\<close>, before the final
  \<open>Math.min(100, vibeScore)\<close>.
\<close>

definition vibeScore_unclamped :: "answer list \<Rightarrow> int" where
  "vibeScore_unclamped answers =
     (let myCodeAnswers = filter (\<lambda>a. ans_isMyCode a) answers;
          otherCodeAnswers = filter (\<lambda>a. \<not> ans_isMyCode a) answers;
          m = count_my myCodeAnswers
                \<lparr>myCodeRecognized = 0, myCodeFamiliar = 0, myCodeUncertain = 0,
                 myCodeMisidentified = 0\<rparr>;
          ot = count_other otherCodeAnswers \<lparr>otherCodeCorrect = 0, otherCodeFalseMemory = 0\<rparr>;
          myTotal = or_one (length myCodeAnswers);
          otherTotal = or_one (length otherCodeAnswers);
          forgetRate = rat_of_nat (myCodeUncertain m + myCodeMisidentified m) / rat_of_nat myTotal;
          fuzzyRate = rat_of_nat (myCodeFamiliar m) / rat_of_nat myTotal;
          falseMemoryRate = rat_of_nat (otherCodeFalseMemory ot) / rat_of_nat otherTotal
      in Math_round (forgetRate * 50 + fuzzyRate * 30 + falseMemoryRate * 20))"

definition calculateVibeMetrics :: "answer list \<Rightarrow> vibe_metrics" where
  "calculateVibeMetrics answers =
     (let myCodeAnswers = filter (\<lambda>a. ans_isMyCode a) answers;
          otherCodeAnswers = filter (\<lambda>a. \<not> ans_isMyCode a) answers;
          m = count_my myCodeAnswers
                \<lparr>myCodeRecognized = 0, myCodeFamiliar = 0, myCodeUncertain = 0,
                 myCodeMisidentified = 0\<rparr>;
          ot = count_other otherCodeAnswers \<lparr>otherCodeCorrect = 0, otherCodeFalseMemory = 0\<rparr>
      in \<lparr>vm_myCodeTotal = length myCodeAnswers,
          vm_otherCodeTotal = length otherCodeAnswers,
          vm_myCodeRecognized = myCodeRecognized m,
          vm_myCodeFamiliar = myCodeFamiliar m,
          vm_myCodeUncertain = myCodeUncertain m,
          vm_myCodeMisidentified = myCodeMisidentified m,
          vm_otherCodeCorrect = otherCodeCorrect ot,
          vm_otherCodeFalseMemory = otherCodeFalseMemory ot,
          vibeScore = min 100 (vibeScore_unclamped answers)\<rparr>)"

subsection \<open>The composite score of the result screen\<close>

record DailyCodeStats =
  date :: jsstring
  linesAdded :: nat
  commits :: nat
  avgLinesPerCommit :: int

record QuizResult =
  memory_answers :: "answer list"
  comment_answers :: "answer list"
  velocity :: "DailyCodeStats list"

text \<open>\<open>Math.min(result.velocity.length * 3, 15)\<close>\<close>

definition velocityBonus :: "nat \<Rightarrow> int" where
  "velocityBonus highOutputDayCount = min (int highOutputDayCount * 3) 15"

text \<open>
  \<open>Math.min(100, Math.round(memoryVibeScore * 0.5 + commentVibeScore * 0.35 + velocityBonus))\<close>,
  as a function of the three numbers it combines.
\<close>

definition totalScore :: "int \<Rightarrow> int \<Rightarrow> int \<Rightarrow> int" where
  "totalScore memoryVibeScore commentVibeScore bonus =
     min 100 (Math_round (rat_of_int memoryVibeScore * (5 / 10)
                          + rat_of_int commentVibeScore * (35 / 100)
                          + rat_of_int bonus))"

datatype rating =
  CodeCraftsman | TraditionalProgrammer | HybridDeveloper | VibeCoder
  | AICollaborationMaster | PromptEngineer | HumanoidCopilot | AIPuppet

fun getVibeRating :: "int \<Rightarrow> rating" where
  "getVibeRating score =
     (if score \<le> 10 then CodeCraftsman
      else if score \<le> 25 then TraditionalProgrammer
      else if score \<le> 40 then HybridDeveloper
      else if score \<le> 55 then VibeCoder
      else if score \<le> 70 then AICollaborationMaster
      else if score \<le> 85 then PromptEngineer
      else if score < 100 then HumanoidCopilot
      else AIPuppet)"

text \<open>The total score and the rating that \<open>ResultScreen\<close> computes from a quiz result.\<close>

definition ResultScreen_totalScore :: "QuizResult \<Rightarrow> int" where
  "ResultScreen_totalScore result =
     (let memoryMetrics = calculateVibeMetrics (memory_answers result);
          commentMetrics = calculateVibeMetrics (comment_answers result);
          memoryVibeScore = vibeScore memoryMetrics;
          commentVibeScore = vibeScore commentMetrics
      in totalScore memoryVibeScore commentVibeScore
           (velocityBonus (length (velocity result))))"

definition ResultScreen_rating :: "QuizResult \<Rightarrow> rating" where
  "ResultScreen_rating result = getVibeRating (ResultScreen_totalScore result)"

subsection \<open>The scoring formula in the words of the specification\<close>

definition selfAnswerCount :: "answer list \<Rightarrow> nat" where
  "selfAnswerCount answers = length (filter ans_isMyCode answers)"

definition otherAnswerCount :: "answer list \<Rightarrow> nat" where
  "otherAnswerCount answers = length (filter (\<lambda>a. \<not> ans_isMyCode a) answers)"

definition selfCount :: "AnswerType \<Rightarrow> answer list \<Rightarrow> nat" where
  "selfCount t answers = length (filter (\<lambda>a. ans_isMyCode a \<and> ans_type a = t) answers)"

definition otherCount :: "AnswerType \<Rightarrow> answer list \<Rightarrow> nat" where
  "otherCount t answers = length (filter (\<lambda>a. \<not> ans_isMyCode a \<and> ans_type a = t) answers)"

definition falseMemoryCount :: "answer list \<Rightarrow> nat" where
  "falseMemoryCount answers = otherCount remember answers + otherCount familiar answers"


definition spec_forgetRate :: "answer list \<Rightarrow> rat" where
  "spec_forgetRate answers =
     rat_of_nat (selfCount uncertain answers + selfCount foreign answers)
       / rat_of_nat (max 1 (selfAnswerCount answers))"

definition spec_fuzzyRate :: "answer list \<Rightarrow> rat" where
  "spec_fuzzyRate answers =
     rat_of_nat (selfCount familiar answers) / rat_of_nat (max 1 (selfAnswerCount answers))"

definition spec_falseMemoryRate :: "answer list \<Rightarrow> rat" where
  "spec_falseMemoryRate answers =
     rat_of_nat (falseMemoryCount answers) / rat_of_nat (max 1 (otherAnswerCount answers))"


section \<open>Fragments\<close>

record CodeSnippet =
  cs_filename :: jsstring
  code :: "jsstring list"
  cs_author :: jsstring
  cs_email :: jsstring
  commitHash :: jsstring
  cs_isMyCode :: bool
  cs_hash :: jsstring

record CommentSnippet =
  cm_filename :: jsstring
  comment :: "jsstring list"
  cm_context :: "jsstring list"
  cm_author :: jsstring
  cm_email :: jsstring
  cm_isMyCode :: bool
  cm_hash :: jsstring

text \<open>\<open>content.join("\n").trim().replace(/\s+/g, " ").substring(0, 200)\<close>\<close>

definition hashContent :: "jsstring list \<Rightarrow> jsstring" where
  "hashContent content = take 200 (collapse_ws (trim (join_nl content)))"

text \<open>The counting loop of \<open>isSimilarSnippet\<close>, from index \<open>i\<close> up to \<open>minLen\<close>.\<close>

function count_same :: "jsstring \<Rightarrow> jsstring \<Rightarrow> nat \<Rightarrow> nat \<Rightarrow> nat \<Rightarrow> nat" where
  "count_same hashA hashB minLen i same =
     (if i < minLen
      then count_same hashA hashB minLen (i + 1) (if hashA ! i = hashB ! i then same + 1 else same)
      else same)"
  by pat_completeness auto
termination
  by (relation "measure (\<lambda>(hashA, hashB, minLen, i, same). minLen - i)") auto

declare count_same.simps [simp del]

text \<open>
  \<open>isSimilarSnippet\<close>. When both fingerprints differ and one is empty, \<open>same / minLen\<close> is
  \<open>0 / 0\<close>, which is NaN, and \<open>NaN > 0.8\<close> is false.
\<close>

definition isSimilarSnippet :: "jsstring list \<Rightarrow> jsstring list \<Rightarrow> bool" where
  "isSimilarSnippet a b =
     (let hashA = hashContent a;
          hashB = hashContent b
      in if hashA = hashB then True
         else (let minLen = min (length hashA) (length hashB);
                   same = count_same hashA hashB minLen 0 0
               in if minLen = 0 then False
                  else rat_of_nat same / rat_of_nat minLen > 8 / 10))"

section \<open>Diff segmenter and block accumulator\<close>

text \<open>
  The part of \<open>extractSnippetsFromDiff\<close> that runs for one file section of the diff, on the
  lines of that section. Splitting the diff into file sections and the file-name filter come
  before it and are not modelled.
\<close>

record CommentBlock =
  cb_comment :: "jsstring list"
  cb_context :: "jsstring list"

record acc_state =
  codeBlocks :: "jsstring list list"
  commentBlocksWithContext :: "CommentBlock list"
  currentCodeBlock :: "jsstring list"
  currentCommentBlock :: "jsstring list"
  contextBuffer :: "jsstring list"
  inHunk :: bool

definition acc_init :: acc_state where
  "acc_init =
     \<lparr>codeBlocks = [], commentBlocksWithContext = [], currentCodeBlock = [],
      currentCommentBlock = [], contextBuffer = [], inHunk = False\<rparr>"

text \<open>
  \<open>if (currentCodeBlock.length >= MIN_SNIPPET_LINES) codeBlocks.push([...currentCodeBlock])\<close>,
  as at a hunk header and after the loop.
\<close>

definition push_code_block :: "acc_state \<Rightarrow> acc_state" where
  "push_code_block st =
     (if length (currentCodeBlock st) \<ge> MIN_SNIPPET_LINES
      then st\<lparr>codeBlocks := codeBlocks st @ [currentCodeBlock st]\<rparr>
      else st)"

text \<open>
  \<open>if (currentCommentBlock.length > 0) commentBlocksWithContext.push({comment, context})\<close>,
  the context being \<open>contextBuffer.slice(-2)\<close>. The two places that do this differ in whether
  the comment buffer is emptied afterwards.
\<close>

definition push_comment_block :: "acc_state \<Rightarrow> acc_state" where
  "push_comment_block st =
     (if length (currentCommentBlock st) > 0
      then st\<lparr>commentBlocksWithContext := commentBlocksWithContext st
                @ [\<lparr>cb_comment = currentCommentBlock st,
                    cb_context = js_slice_from (contextBuffer st) (- 2)\<rparr>]\<rparr>
      else st)"

text \<open>The body of the loop over the lines of one file section.\<close>

definition step_line :: "acc_state \<Rightarrow> jsstring \<Rightarrow> acc_state" where
  "step_line st line =
     (if startsWith line (str ''@@'') then
        (push_code_block (st\<lparr>inHunk := True\<rparr>))\<lparr>currentCodeBlock := []\<rparr>
      else if \<not> inHunk st then st
      else if startsWith line (str ''+'') \<and> \<not> startsWith line (str ''+++'') then
        (let codeLine = drop 1 line;
             trimmed = trim codeLine
         in if isFixedPattern codeLine then st
            else if isCommentLine codeLine \<and> length trimmed > 15 then
              st\<lparr>currentCommentBlock := currentCommentBlock st @ [codeLine]\<rparr>
            else
              (let st1 = (if length (currentCommentBlock st) > 0
                          then (push_comment_block st)\<lparr>currentCommentBlock := []\<rparr>
                          else st)
               in if \<not> isNoiseLine codeLine then
                    (let st2 = st1\<lparr>currentCodeBlock := currentCodeBlock st1 @ [codeLine],
                                   contextBuffer := contextBuffer st1 @ [codeLine]\<rparr>
                     in if length (contextBuffer st2) > 5
                        then st2\<lparr>contextBuffer := tl (contextBuffer st2)\<rparr>
                        else st2)
                  else if length (currentCodeBlock st1) \<ge> MIN_SNIPPET_LINES then
                    st1\<lparr>codeBlocks := codeBlocks st1 @ [currentCodeBlock st1],
                        currentCodeBlock := []\<rparr>
                  else st1))
      else if startsWith line (str ''-'') \<or> startsWith line (str '' '') then
        (if length (currentCodeBlock st) \<ge> MIN_SNIPPET_LINES
         then st\<lparr>codeBlocks := codeBlocks st @ [currentCodeBlock st], currentCodeBlock := []\<rparr>
         else st)
      else st)"

text \<open>The loop, and the two pushes after it.\<close>

definition collectBlocks :: "jsstring list \<Rightarrow> acc_state" where
  "collectBlocks lines = push_comment_block (push_code_block (foldl step_line acc_init lines))"

section \<open>Snippet windower\<close>

text \<open>
  One code block becomes at most one snippet. \<open>u\<close> is the value that \<open>Math.random()\<close>
  returns for this block, a number with \<open>0 \<le> u < 1\<close>. The result is \<open>None\<close> when no snippet
  is pushed.
\<close>

definition windowLen :: "nat \<Rightarrow> int" where
  "windowLen blockLength =
     (let maxLen = min (int MAX_SNIPPET_LINES) (int blockLength)
      in min maxLen (max (int MIN_SNIPPET_LINES)
                         (Math_floor (rat_of_nat blockLength * (7 / 10)))))"

definition windowSnippet :: "rat \<Rightarrow> jsstring list \<Rightarrow> jsstring list option" where
  "windowSnippet u block =
     (if length block \<ge> MIN_SNIPPET_LINES then
        (let len = windowLen (length block);
             startIdx = Math_floor (u * rat_of_int (max 1 (int (length block) - len + 1)));
             snippet = js_slice block startIdx (startIdx + len)
         in if length snippet \<ge> MIN_SNIPPET_LINES then Some snippet else None)
      else None)"

text \<open>
  The author, commit and file that the fragments of one file section carry.
\<close>

record origin =
  o_filename :: jsstring
  o_author :: jsstring
  o_email :: jsstring
  o_commitHash :: jsstring
  o_isMyCode :: bool

definition mkCodeSnippet :: "origin \<Rightarrow> jsstring list \<Rightarrow> CodeSnippet" where
  "mkCodeSnippet og snippet =
     \<lparr>cs_filename = o_filename og, code = snippet, cs_author = o_author og,
      cs_email = o_email og, commitHash = take 7 (o_commitHash og),
      cs_isMyCode = o_isMyCode og, cs_hash = hashContent snippet\<rparr>"

definition mkCommentSnippet :: "origin \<Rightarrow> CommentBlock \<Rightarrow> CommentSnippet" where
  "mkCommentSnippet og block =
     \<lparr>cm_filename = o_filename og, comment = cb_comment block, cm_context = cb_context block,
      cm_author = o_author og, cm_email = o_email og, cm_isMyCode = o_isMyCode og,
      cm_hash = hashContent (cb_comment block)\<rparr>"

text \<open>
  The loop over the code blocks. \<open>rnd i\<close> is the value of the \<open>i\<close>-th call of
  \<open>Math.random()\<close>; a call is made for every block of at least \<open>MIN_SNIPPET_LINES\<close> lines.
\<close>

fun codeSnippetsOf :: "(nat \<Rightarrow> rat) \<Rightarrow> nat \<Rightarrow> origin \<Rightarrow> jsstring list list \<Rightarrow> CodeSnippet list" where
  "codeSnippetsOf rnd i og [] = []"
| "codeSnippetsOf rnd i og (block # blocks) =
     (if length block \<ge> MIN_SNIPPET_LINES then
        (case windowSnippet (rnd i) block of
           Some snippet \<Rightarrow> mkCodeSnippet og snippet # codeSnippetsOf rnd (i + 1) og blocks
         | None \<Rightarrow> codeSnippetsOf rnd (i + 1) og blocks)
      else codeSnippetsOf rnd i og blocks)"

text \<open>The loop over the comment blocks.\<close>

definition commentSnippetsOf :: "origin \<Rightarrow> CommentBlock list \<Rightarrow> CommentSnippet list" where
  "commentSnippetsOf og blocks =
     map (mkCommentSnippet og)
       (filter (\<lambda>block. length (cb_comment block) \<ge> 1
                         \<and> list_ex (\<lambda>c. length (trim c) > 20) (cb_comment block)) blocks)"

definition extractSnippetsFromFile ::
    "(nat \<Rightarrow> rat) \<Rightarrow> origin \<Rightarrow> jsstring list \<Rightarrow> CodeSnippet list \<times> CommentSnippet list" where
  "extractSnippetsFromFile rnd og lines =
     (let st = collectBlocks lines
      in (codeSnippetsOf rnd 0 og (codeBlocks st),
          commentSnippetsOf og (commentBlocksWithContext st)))"

section \<open>Deduplicator\<close>

text \<open>
  \<open>deduplicateSnippets\<close> is generic in the fragment type; \<open>hashOf\<close> reads the field \<open>hash\<close>
  and \<open>contentOf\<close> is \<open>snippet.code || snippet.comment || []\<close>, which is \<open>code\<close> on a
  \<open>CodeSnippet\<close> and \<open>comment\<close> on a \<open>CommentSnippet\<close>, an array being truthy even when empty.
\<close>

fun dedup_loop ::
    "('a \<Rightarrow> jsstring) \<Rightarrow> ('a \<Rightarrow> jsstring list) \<Rightarrow> 'a list \<Rightarrow> jsstring set \<Rightarrow> 'a list \<Rightarrow> 'a list" where
  "dedup_loop hashOf contentOf [] seen result = result"
| "dedup_loop hashOf contentOf (snippet # snippets) seen result =
     (if hashOf snippet \<notin> seen then
        (let content = contentOf snippet;
             isDuplicate = list_ex (\<lambda>existing. isSimilarSnippet content (contentOf existing)) result
         in if \<not> isDuplicate
            then dedup_loop hashOf contentOf snippets (insert (hashOf snippet) seen)
                   (result @ [snippet])
            else dedup_loop hashOf contentOf snippets seen result)
      else dedup_loop hashOf contentOf snippets seen result)"

definition deduplicateSnippets ::
    "('a \<Rightarrow> jsstring) \<Rightarrow> ('a \<Rightarrow> jsstring list) \<Rightarrow> 'a list \<Rightarrow> 'a list" where
  "deduplicateSnippets hashOf contentOf snippets = dedup_loop hashOf contentOf snippets {} []"

subsection \<open>Deduplication in the words of the specification\<close>

text \<open>
  The number of positions below the shorter length at which two fingerprints agree, over the
  shorter length.
\<close>

definition spec_matchRatio :: "jsstring \<Rightarrow> jsstring \<Rightarrow> rat" where
  "spec_matchRatio fa fb =
     rat_of_nat (length (filter (\<lambda>i. fa ! i = fb ! i) [0..<min (length fa) (length fb)]))
       / rat_of_nat (min (length fa) (length fb))"

definition spec_duplicates :: "jsstring \<Rightarrow> jsstring \<Rightarrow> bool" where
  "spec_duplicates fa fb = (fa = fb \<or> spec_matchRatio fa fb > 8 / 10)"

text \<open>
  Scanning in order: a fragment is rejected when some already accepted fragment is a duplicate
  of it, and appended to the accepted ones otherwise.
\<close>

fun spec_dedup :: "('a \<Rightarrow> jsstring) \<Rightarrow> 'a list \<Rightarrow> 'a list \<Rightarrow> 'a list" where
  "spec_dedup fp [] accepted = accepted"
| "spec_dedup fp (x # xs) accepted =
     (if list_ex (\<lambda>e. spec_duplicates (fp x) (fp e)) accepted
      then spec_dedup fp xs accepted
      else spec_dedup fp xs (accepted @ [x]))"

text \<open>
  Two strings that differ only in the length of their white-space runs: equal characters
  outside white space, and a non-empty run of white space in one where the other has one.
  Two fragments differ only in white-space run length when their lines do, one by one.
\<close>

inductive same_up_to_ws_runs :: "jsstring \<Rightarrow> jsstring \<Rightarrow> bool" where
  sw_nil: "same_up_to_ws_runs [] []"
| sw_char: "\<not> is_ws c \<Longrightarrow> same_up_to_ws_runs s t \<Longrightarrow> same_up_to_ws_runs (c # s) (c # t)"
| sw_run: "u \<noteq> [] \<Longrightarrow> v \<noteq> [] \<Longrightarrow> \<forall>c \<in> set u. is_ws c \<Longrightarrow> \<forall>c \<in> set v. is_ws c \<Longrightarrow>
     same_up_to_ws_runs s t \<Longrightarrow> same_up_to_ws_runs (u @ s) (v @ t)"

section \<open>Velocity aggregator\<close>

text \<open>
  What \<open>getCommitInfo\<close> and \<open>getCommitDiff\<close> return for one commit: the author, the e-mail
  address, the calendar day of the time stamp (\<open>toISOString().split("T")[0]\<close>) and the diff.
  A commit whose retrieval throws is \<open>None\<close>; the loop skips it. \<open>getCommitDiff\<close> does not
  throw: it returns the empty diff when the retrieval of the diff fails.
\<close>

record commit_data =
  cd_author :: jsstring
  cd_email :: jsstring
  cd_dateStr :: jsstring
  cd_diff :: jsstring

record day_stat =
  ds_lines :: nat
  ds_commits :: nat

text \<open>The number of lines of a diff that start with \<open>+\<close> but not with \<open>+++\<close>.\<close>

fun count_added :: "jsstring list \<Rightarrow> nat \<Rightarrow> nat" where
  "count_added [] linesAdded' = linesAdded'"
| "count_added (line # lines) linesAdded' =
     count_added lines
       (if startsWith line (str ''+'') \<and> \<not> startsWith line (str ''+++'')
        then linesAdded' + 1 else linesAdded')"

text \<open>
  The map \<open>dailyStats\<close> is a list of entries in insertion order, each key once.
  \<open>map_add_day\<close> does what the loop body does to the map: it inserts the entry \<open>(0, 0)\<close> at
  the end when the key is new, then adds to the entry of the key.
\<close>

fun map_bump :: "jsstring \<Rightarrow> nat \<Rightarrow> (jsstring \<times> day_stat) list \<Rightarrow> (jsstring \<times> day_stat) list" where
  "map_bump k n [] = []"
| "map_bump k n ((k', stat) # m) =
     (if k' = k
      then (k', stat\<lparr>ds_lines := ds_lines stat + n, ds_commits := ds_commits stat + 1\<rparr>) # m
      else (k', stat) # map_bump k n m)"

definition map_add_day :: "jsstring \<Rightarrow> nat \<Rightarrow> (jsstring \<times> day_stat) list \<Rightarrow> (jsstring \<times> day_stat) list" where
  "map_add_day dateStr n dailyStats =
     (let m = (if dateStr \<notin> set (map fst dailyStats)
               then dailyStats @ [(dateStr, \<lparr>ds_lines = 0, ds_commits = 0\<rparr>)]
               else dailyStats)
      in map_bump dateStr n m)"

definition authorKey :: "jsstring \<Rightarrow> jsstring \<Rightarrow> jsstring" where
  "authorKey author email = author @ str ''|'' @ email"

fun velocity_loop ::
    "jsstring set \<Rightarrow> commit_data option list \<Rightarrow> (jsstring \<times> day_stat) list \<Rightarrow> (jsstring \<times> day_stat) list" where
  "velocity_loop selectedAuthors [] dailyStats = dailyStats"
| "velocity_loop selectedAuthors (None # sampled) dailyStats =
     velocity_loop selectedAuthors sampled dailyStats"
| "velocity_loop selectedAuthors (Some info # sampled) dailyStats =
     (if authorKey (cd_author info) (cd_email info) \<notin> selectedAuthors
      then velocity_loop selectedAuthors sampled dailyStats
      else velocity_loop selectedAuthors sampled
             (map_add_day (cd_dateStr info) (count_added (split_nl (cd_diff info)) 0) dailyStats))"

definition results_of :: "(jsstring \<times> day_stat) list \<Rightarrow> DailyCodeStats list" where
  "results_of dailyStats =
     map (\<lambda>(d, stat).
            \<lparr>date = d, linesAdded = ds_lines stat, commits = ds_commits stat,
             avgLinesPerCommit =
               Math_round (rat_of_nat (ds_lines stat) / rat_of_nat (ds_commits stat))\<rparr>)
       dailyStats"

text \<open>
  \<open>analyzeDailyVelocity\<close>. \<open>Array.prototype.sort\<close> is stable, and so is \<open>sort_key\<close>; the
  comparator \<open>b.linesAdded - a.linesAdded\<close> orders by descending \<open>linesAdded\<close>.
\<close>

definition analyzeDailyVelocity :: "commit_data option list \<Rightarrow> jsstring set \<Rightarrow> DailyCodeStats list" where
  "analyzeDailyVelocity commitInfos selectedAuthors =
     (let sampled = js_slice commitInfos 0 (int SAMPLE_COMMITS);
          dailyStats = velocity_loop selectedAuthors sampled [];
          results = results_of dailyStats
      in js_slice
           (sort_key (\<lambda>d. - int (linesAdded d)) (filter (\<lambda>d. linesAdded d > 500) results))
           0 10)"

section \<open>Question sampler\<close>

text \<open>
  The preparation of one question set in \<open>scanCode\<close>, the same code for the code track and
  the comment track. The local function \<open>shuffle\<close> sorts a copy of its argument with a random
  comparator; \<open>shuffle k xs\<close> stands for what its \<open>k\<close>-th call in the preparation returns on
  \<open>xs\<close>. \<open>Q\<close> is \<open>MEMORY_QUESTIONS\<close> or \<open>COMMENT_QUESTIONS\<close>.
\<close>

definition myCount :: "nat \<Rightarrow> nat \<Rightarrow> int" where
  "myCount Q myLength = min (Math_ceil (rat_of_nat Q * (6 / 10))) (int myLength)"

definition otherCount' :: "nat \<Rightarrow> nat \<Rightarrow> nat \<Rightarrow> int" where
  "otherCount' Q myLength otherLength = min (int Q - myCount Q myLength) (int otherLength)"

definition finalMyCount :: "nat \<Rightarrow> nat \<Rightarrow> nat \<Rightarrow> int" where
  "finalMyCount Q myLength otherLength =
     min (int Q - otherCount' Q myLength otherLength) (int myLength)"

definition prepareQuestions ::
    "(nat \<Rightarrow> 'a list \<Rightarrow> 'a list) \<Rightarrow> ('a \<Rightarrow> bool) \<Rightarrow> nat \<Rightarrow> 'a list \<Rightarrow> 'a list" where
  "prepareQuestions shuffle isMyCode Q snippets =
     (let my = filter (\<lambda>s. isMyCode s) snippets;
          other = filter (\<lambda>s. \<not> isMyCode s) snippets
      in shuffle 2
           (js_slice (shuffle 0 my) 0 (finalMyCount Q (length my) (length other))
            @ js_slice (shuffle 1 other) 0 (otherCount' Q (length my) (length other))))"

text \<open>
  The end of \<open>scanCode\<close>, from the deduplicated pools on: the state that the component is
  left in.
\<close>

datatype GamePhase =
  phase_loading | phase_select_author | phase_scanning | phase_ready | phase_memory
  | phase_comment | phase_result

datatype error_message = not_a_git_repo | no_commits | too_few_code_snippets | scan_failed

record app_state =
  phase :: GamePhase
  error :: "error_message option"
  memoryQuestions :: "CodeSnippet list"
  commentQuestions :: "CommentSnippet list"

definition scanCode_finish ::
    "(nat \<Rightarrow> CodeSnippet list \<Rightarrow> CodeSnippet list)
     \<Rightarrow> (nat \<Rightarrow> CommentSnippet list \<Rightarrow> CommentSnippet list)
     \<Rightarrow> CodeSnippet list \<Rightarrow> CommentSnippet list \<Rightarrow> app_state \<Rightarrow> app_state" where
  "scanCode_finish shuffle shuffle' codeSnippets commentSnippets st =
     (let memQs = prepareQuestions shuffle cs_isMyCode MEMORY_QUESTIONS codeSnippets;
          commentQs = prepareQuestions shuffle' cm_isMyCode COMMENT_QUESTIONS commentSnippets;
          st1 = st\<lparr>memoryQuestions := memQs, commentQuestions := commentQs\<rparr>
      in if length memQs < 3 then st1\<lparr>error := Some too_few_code_snippets\<rparr>
         else st1\<lparr>phase := phase_ready\<rparr>)"

text \<open>
  \<open>handleMemoryAnswer\<close> after the last code question: the comment track starts only when it
  has a question.
\<close>

definition after_last_memory_answer :: "app_state \<Rightarrow> app_state" where
  "after_last_memory_answer st =
     (if length (commentQuestions st) > 0 then st\<lparr>phase := phase_comment\<rparr>
      else st\<lparr>phase := phase_result\<rparr>)"

text \<open>The component renders the error message in place of every screen when one is set.\<close>

definition run_failed :: "app_state \<Rightarrow> bool" where
  "run_failed st = (error st \<noteq> None)"

section \<open>Vocabulary of the specification for the accumulator\<close>

text \<open>
  The class that the loop body gives an added line, in the order of its checks: boilerplate
  (a fixed pattern), comment (a comment pattern on a line longer than 15 characters after
  trimming), noise, and substantive code for the rest.
\<close>

datatype line_class = Boilerplate | CommentLine | Noise | Substantive

definition classify :: "jsstring \<Rightarrow> line_class" where
  "classify codeLine =
     (if isFixedPattern codeLine then Boilerplate
      else if isCommentLine codeLine \<and> length (trim codeLine) > 15 then CommentLine
      else if isNoiseLine codeLine then Noise
      else Substantive)"

text \<open>The kinds of diff line that the loop body tells apart.\<close>

definition is_hunk_header :: "jsstring \<Rightarrow> bool" where
  "is_hunk_header line = startsWith line (str ''@@'')"

definition is_added :: "jsstring \<Rightarrow> bool" where
  "is_added line = (startsWith line (str ''+'') \<and> \<not> startsWith line (str ''+++''))"

definition is_context_or_deletion :: "jsstring \<Rightarrow> bool" where
  "is_context_or_deletion line = (startsWith line (str ''-'') \<or> startsWith line (str '' ''))"

section \<open>The loop body by cases\<close>

text \<open>
  Closing the comment buffer, closing the code buffer when it is long enough, appending a
  substantive line, and the whole treatment of an added line.
\<close>

definition flush_comment :: "acc_state \<Rightarrow> acc_state" where
  "flush_comment st =
     (if length (currentCommentBlock st) > 0
      then (push_comment_block st)\<lparr>currentCommentBlock := []\<rparr> else st)"

definition flush_code :: "acc_state \<Rightarrow> acc_state" where
  "flush_code st =
     (if length (currentCodeBlock st) \<ge> MIN_SNIPPET_LINES
      then st\<lparr>codeBlocks := codeBlocks st @ [currentCodeBlock st], currentCodeBlock := []\<rparr>
      else st)"

definition push_line :: "jsstring \<Rightarrow> acc_state \<Rightarrow> acc_state" where
  "push_line codeLine st =
     st\<lparr>currentCodeBlock := currentCodeBlock st @ [codeLine],
        contextBuffer :=
          (if length (contextBuffer st @ [codeLine]) > 5
           then tl (contextBuffer st @ [codeLine])
           else contextBuffer st @ [codeLine])\<rparr>"

definition added_step :: "acc_state \<Rightarrow> jsstring \<Rightarrow> acc_state" where
  "added_step st codeLine =
     (case classify codeLine of
        Boilerplate \<Rightarrow> st
      | CommentLine \<Rightarrow> st\<lparr>currentCommentBlock := currentCommentBlock st @ [codeLine]\<rparr>
      | Noise \<Rightarrow> flush_code (flush_comment st)
      | Substantive \<Rightarrow> push_line codeLine (flush_comment st))"

section \<open>Example inputs\<close>


text \<open>Lines of a file section, and four file sections built from them.\<close>

definition ex_hunk :: jsstring where "ex_hunk = str ''@@ -1,2 +1,8 @@''"

definition ex_code1 :: jsstring where "ex_code1 = str ''const total = price * count;''"

definition ex_code2 :: jsstring where "ex_code2 = str ''let label = format(total);''"

definition ex_code3 :: jsstring where "ex_code3 = str ''console.log(label, total);''"

definition ex_code4 :: jsstring where "ex_code4 = str ''return total + shipping;''"

definition ex_code5 :: jsstring where "ex_code5 = str ''notify(user, label);''"

definition ex_context :: jsstring where "ex_context = str '' unchanged();''"

definition ex_noise :: jsstring where "ex_noise = str ''return;''"

definition ex_short_comment :: jsstring where "ex_short_comment = str ''// short note''"

definition ex_tiny_comment :: jsstring where "ex_tiny_comment = str ''// x''"

text \<open>The origin of the example fragments, a self-authored commit.\<close>

definition example_origin :: origin where
  "example_origin =
     \<lparr>o_filename = str ''src/cart.ts'', o_author = str ''Ada'', o_email = str ''ada@example.org'',
      o_commitHash = str ''0123456789abcdef'', o_isMyCode = True\<rparr>"

text \<open>
  A pool of three self-authored code fragments of four lines each, and the state of the
  component while it scans.
\<close>

definition example_code_pool :: "CodeSnippet list" where
  "example_code_pool =
     [mkCodeSnippet example_origin [ex_code1, ex_code2, ex_code3, ex_code4],
      mkCodeSnippet example_origin [ex_code5, ex_code4, ex_code3, ex_code2],
      mkCodeSnippet example_origin [ex_code3, ex_code5, ex_code1, ex_code4]]"

definition scanning_state :: app_state where
  "scanning_state =
     \<lparr>phase = phase_scanning, error = None, memoryQuestions = [], commentQuestions = []\<rparr>"

text \<open>An added line of a diff: the marker \<open>+\<close> before the line.\<close>

definition added :: "jsstring \<Rightarrow> jsstring" where
  "added codeLine = 43 # codeLine"

text \<open>A shuffle that reverses its argument at every call.\<close>

definition reversing :: "nat \<Rightarrow> 'a list \<Rightarrow> 'a list" where
  "reversing k xs = rev xs"

text \<open>The end of the scan on the pool of three code fragments and no comment fragment.\<close>

definition example_scan_result :: app_state where
  "example_scan_result =
     scanCode_finish reversing reversing example_code_pool [] scanning_state"

text \<open>A random source that returns 0 at every call.\<close>

definition zero_draws :: "nat \<Rightarrow> rat" where
  "zero_draws i = 0"



definition section_with_short_comment :: "jsstring list" where
  "section_with_short_comment =
     [ex_hunk, added ex_short_comment, added ex_code1, added ex_code2, added ex_code3]"

definition section_of_five :: "jsstring list" where
  "section_of_five =
     [ex_hunk, added ex_code1, added ex_code2, added ex_code3, added ex_code4, added ex_code5]"


definition after_hunk_header :: acc_state where
  "after_hunk_header = foldl step_line acc_init [ex_hunk]"

text \<open>
  Commits for the velocity aggregator: a diff of \<open>n\<close> added lines, two commits of 300 added
  lines by a selected author on one day, one commit of another author, and one commit whose
  retrieval failed.
\<close>

definition ex_diff :: "nat \<Rightarrow> jsstring" where
  "ex_diff n = concat (replicate n (str ''+x'' @ [10]))"

definition ex_commit :: commit_data where
  "ex_commit =
     \<lparr>cd_author = str ''Ada'', cd_email = str ''ada@example.org'',
      cd_dateStr = str ''2024-03-01'', cd_diff = ex_diff 300\<rparr>"

definition ex_other_commit :: commit_data where
  "ex_other_commit =
     \<lparr>cd_author = str ''Bob'', cd_email = str ''bob@example.org'',
      cd_dateStr = str ''2024-03-01'', cd_diff = ex_diff 700\<rparr>"

definition ex_selected :: "jsstring set" where
  "ex_selected = {authorKey (str ''Ada'') (str ''ada@example.org'')}"

definition ex_commits :: "commit_data option list" where
  "ex_commits = [Some ex_commit, None, Some ex_other_commit, Some ex_commit]"

definition ex_day :: DailyCodeStats where
  "ex_day = \<lparr>date = str ''2024-03-01'', linesAdded = 600, commits = 2, avgLinesPerCommit = 300\<rparr>"

text \<open>
  Two code fragments of four lines that differ in the length of one run of spaces in their
  first line.
\<close>

definition ex_code1_wide :: jsstring where
  "ex_code1_wide = str ''const'' @ [32, 32, 32] @ str ''total = price * count;''"

definition ex_wide :: CodeSnippet where
  "ex_wide = mkCodeSnippet example_origin [ex_code1_wide, ex_code2, ex_code3, ex_code4]"

definition ex_narrow :: CodeSnippet where
  "ex_narrow = mkCodeSnippet example_origin [ex_code1, ex_code2, ex_code3, ex_code4]"

section \<open>The two tests decide membership in the language\<close>

lemma nullable_lang: "nullable r \<longleftrightarrow> [] \<in> lang r"
proof (induction r)
  case (Star r)
  then show ?case by (simp add: star_nil)
qed auto

lemma star_cons:
  "c # s \<in> star A \<longleftrightarrow> (\<exists>u v. s = u @ v \<and> c # u \<in> A \<and> v \<in> star A)"
proof
  assume "c # s \<in> star A"
  then show "\<exists>u v. s = u @ v \<and> c # u \<in> A \<and> v \<in> star A"
  proof (induction "c # s" rule: star.induct)
    case (star_app u v)
    show ?case
    proof (cases u)
      case Nil
      then show ?thesis using star_app by simp
    next
      case (Cons a u')
      then show ?thesis using star_app by auto
    qed
  qed
next
  assume "\<exists>u v. s = u @ v \<and> c # u \<in> A \<and> v \<in> star A"
  then obtain u v where "s = u @ v" "c # u \<in> A" "v \<in> star A" by blast
  then show "c # s \<in> star A" using star_app [of "c # u" A v] by simp
qed

lemma lang_deriv: "s \<in> lang (deriv c r) \<longleftrightarrow> c # s \<in> lang r"
proof (induction r arbitrary: s)
  case Nul
  then show ?case by simp
next
  case Eps
  then show ?case by simp
next
  case (Cls p)
  then show ?case by auto
next
  case (Seq r1 r2)
  have "c # s \<in> lang (Seq r1 r2) \<longleftrightarrow>
      ([] \<in> lang r1 \<and> c # s \<in> lang r2)
      \<or> (\<exists>u v. s = u @ v \<and> c # u \<in> lang r1 \<and> v \<in> lang r2)"
    by (auto simp: Cons_eq_append_conv)
  then show ?case using Seq by (auto simp: nullable_lang)
next
  case (Alt r1 r2)
  then show ?case by simp
next
  case (Star r)
  then show ?case by (auto simp: star_cons)
qed

lemma rx_full_lang: "rx_full r s \<longleftrightarrow> s \<in> lang r"
  by (induction s arbitrary: r) (simp_all add: nullable_lang lang_deriv)

lemma rx_prefix_lang: "rx_prefix r s \<longleftrightarrow> (\<exists>p q. s = p @ q \<and> p \<in> lang r)"
proof (induction s arbitrary: r)
  case Nil
  then show ?case by (simp add: nullable_lang)
next
  case (Cons c s)
  have "(\<exists>p q. c # s = p @ q \<and> p \<in> lang r)
      \<longleftrightarrow> [] \<in> lang r \<or> (\<exists>p q. s = p @ q \<and> c # p \<in> lang r)"
    by (auto simp: Cons_eq_append_conv)
  then show ?case using Cons by (simp add: nullable_lang lang_deriv)
qed

section \<open>Properties of the scoring engine\<close>

subsection \<open>The counting loops\<close>

lemma count_my_fields:
  "myCodeRecognized (count_my as c)
     = myCodeRecognized c + length (filter (\<lambda>a. ans_type a = remember) as)"
  "myCodeFamiliar (count_my as c)
     = myCodeFamiliar c + length (filter (\<lambda>a. ans_type a = familiar) as)"
  "myCodeUncertain (count_my as c)
     = myCodeUncertain c + length (filter (\<lambda>a. ans_type a = uncertain) as)"
  "myCodeMisidentified (count_my as c)
     = myCodeMisidentified c + length (filter (\<lambda>a. ans_type a = foreign) as)"
  by (induction as arbitrary: c; simp split: AnswerType.splits)+

lemma count_other_fields:
  "otherCodeFalseMemory (count_other as c) =
     otherCodeFalseMemory c + length (filter (\<lambda>a. ans_type a = remember) as)
       + length (filter (\<lambda>a. ans_type a = familiar) as)"
  "otherCodeCorrect (count_other as c) =
     otherCodeCorrect c + length (filter (\<lambda>a. ans_type a = uncertain) as)
       + length (filter (\<lambda>a. ans_type a = foreign) as)"
  by (induction as arbitrary: c; simp split: AnswerType.splits)+

lemma or_one_max: "or_one n = max 1 n"
  by (simp add: or_one_def)

lemma unclamped_spec:
  "vibeScore_unclamped answers =
     Math_round (spec_forgetRate answers * 50 + spec_fuzzyRate answers * 30
                 + spec_falseMemoryRate answers * 20)"
  by (simp add: vibeScore_unclamped_def Let_def count_my_fields count_other_fields or_one_max
      spec_forgetRate_def spec_fuzzyRate_def spec_falseMemoryRate_def selfCount_def
      otherCount_def falseMemoryCount_def selfAnswerCount_def otherAnswerCount_def conj_commute)


lemma filter_type_partition:
  "length (filter (\<lambda>a. ans_type a = remember) as)
   + length (filter (\<lambda>a. ans_type a = familiar) as)
   + length (filter (\<lambda>a. ans_type a = uncertain) as)
   + length (filter (\<lambda>a. ans_type a = foreign) as)
   = length as"
  by (induction as) (auto split: AnswerType.splits intro: AnswerType.exhaust)

subsection \<open>Bounds on the rates and on the scores\<close>

lemma rates_le:
  "spec_forgetRate answers + spec_fuzzyRate answers \<le> 1"
  "spec_falseMemoryRate answers \<le> 1"
  "0 \<le> spec_forgetRate answers"
  "0 \<le> spec_fuzzyRate answers"
  "0 \<le> spec_falseMemoryRate answers"
proof -
  let ?my = "filter ans_isMyCode answers"
  let ?ot = "filter (\<lambda>a. \<not> ans_isMyCode a) answers"
  have my: "selfCount t answers = length (filter (\<lambda>a. ans_type a = t) ?my)" for t
    by (simp add: selfCount_def conj_commute)
  have ot: "otherCount t answers = length (filter (\<lambda>a. ans_type a = t) ?ot)" for t
    by (simp add: otherCount_def conj_commute)
  have "selfCount uncertain answers + selfCount foreign answers + selfCount familiar answers
        \<le> selfAnswerCount answers"
    using filter_type_partition [of ?my] by (simp add: my selfAnswerCount_def)
  then have "rat_of_nat (selfCount uncertain answers + selfCount foreign answers
                         + selfCount familiar answers)
        \<le> rat_of_nat (max 1 (selfAnswerCount answers))"
    by (metis max.coboundedI2 of_nat_le_iff)
  then show "spec_forgetRate answers + spec_fuzzyRate answers \<le> 1"
    by (simp add: spec_forgetRate_def spec_fuzzyRate_def add_divide_distrib [symmetric]
        del: of_nat_add)
  have "falseMemoryCount answers \<le> otherAnswerCount answers"
    using filter_type_partition [of ?ot]
    by (simp add: ot falseMemoryCount_def otherAnswerCount_def)
  then have "rat_of_nat (falseMemoryCount answers)
        \<le> rat_of_nat (max 1 (otherAnswerCount answers))"
    by (metis max.coboundedI2 of_nat_le_iff)
  then show "spec_falseMemoryRate answers \<le> 1"
    by (simp add: spec_falseMemoryRate_def divide_le_eq)
  show "0 \<le> spec_forgetRate answers" "0 \<le> spec_fuzzyRate answers"
    "0 \<le> spec_falseMemoryRate answers"
    by (simp_all add: spec_forgetRate_def spec_fuzzyRate_def spec_falseMemoryRate_def)
qed

lemma unclamped_le_70: "vibeScore_unclamped answers \<le> 70"
proof -
  have "spec_forgetRate answers * 50 + spec_fuzzyRate answers * 30
        + spec_falseMemoryRate answers * 20 \<le> 70"
    using rates_le [of answers] by linarith
  then have "spec_forgetRate answers * 50 + spec_fuzzyRate answers * 30
        + spec_falseMemoryRate answers * 20 + 1 / 2 < 71"
    by linarith
  then show ?thesis
    unfolding unclamped_spec Math_round_def by (simp add: floor_less_iff)
qed

lemma vibeScore_is_unclamped:
  "vibeScore (calculateVibeMetrics answers) = vibeScore_unclamped answers"
  using unclamped_le_70 [of answers] by (simp add: calculateVibeMetrics_def Let_def)

lemma totalScore_mono:
  "m \<le> m' \<Longrightarrow> c \<le> c' \<Longrightarrow> b \<le> b' \<Longrightarrow> totalScore m c b \<le> totalScore m' c' b'"
  unfolding totalScore_def Math_round_def
  by (intro min.mono order_refl floor_mono add_mono mult_right_mono) simp_all

lemma velocityBonus_le: "velocityBonus n \<le> 15"
  by (simp add: velocityBonus_def)

lemma totalScore_70_70_15: "totalScore 70 70 15 = 75"
  by (simp add: totalScore_def Math_round_def)

lemma ResultScreen_totalScore_le_75: "ResultScreen_totalScore result \<le> 75"
proof -
  have "ResultScreen_totalScore result \<le> totalScore 70 70 15"
    unfolding ResultScreen_totalScore_def Let_def
    by (intro totalScore_mono velocityBonus_le)
       (simp_all add: vibeScore_is_unclamped unclamped_le_70)
  then show ?thesis by (simp add: totalScore_70_70_15)
qed


subsection \<open>The claims about scoring\<close>



text \<open>
  C6. The composite score is
  \<open>min(100, round(codeScore*0.5 + commentScore*0.35 + velocityBonus))\<close> with
  \<open>velocityBonus = min(highOutputDayCount*3, 15)\<close>, both for the function of three numbers
  and for the score the result screen computes from a quiz result; whenever the weighted sum
  exceeds 100 the result is exactly 100, and the result never exceeds 100.
\<close>

theorem C6_composite_score:
  "totalScore codeScore commentScore (velocityBonus days)
     = min 100 (Math_round (rat_of_int codeScore * (5 / 10) + rat_of_int commentScore * (35 / 100)
                            + rat_of_int (min (int days * 3) 15)))
   \<and> ResultScreen_totalScore result
     = min 100 (Math_round
         (rat_of_int (vibeScore (calculateVibeMetrics (memory_answers result))) * (5 / 10)
          + rat_of_int (vibeScore (calculateVibeMetrics (comment_answers result))) * (35 / 100)
          + rat_of_int (min (int (length (velocity result)) * 3) 15)))
   \<and> (rat_of_int codeScore * (5 / 10) + rat_of_int commentScore * (35 / 100)
        + rat_of_int (velocityBonus days) > 100
      \<longrightarrow> totalScore codeScore commentScore (velocityBonus days) = 100)
   \<and> totalScore codeScore commentScore (velocityBonus days) \<le> 100"
proof (intro conjI impI)
  assume "rat_of_int codeScore * (5 / 10) + rat_of_int commentScore * (35 / 100)
        + rat_of_int (velocityBonus days) > 100"
  then have "rat_of_int 100 \<le> rat_of_int codeScore * (5 / 10)
        + rat_of_int commentScore * (35 / 100) + rat_of_int (velocityBonus days) + 1 / 2"
    by simp
  then have "100 \<le> Math_round (rat_of_int codeScore * (5 / 10)
        + rat_of_int commentScore * (35 / 100) + rat_of_int (velocityBonus days))"
    unfolding Math_round_def le_floor_iff .
  then show "totalScore codeScore commentScore (velocityBonus days) = 100"
    by (simp add: totalScore_def)
qed (simp_all add: totalScore_def velocityBonus_def ResultScreen_totalScore_def Let_def)

theorem C6_composite_score_witness:
  "rat_of_int 150 * (5 / 10) + rat_of_int 120 * (35 / 100) + rat_of_int (velocityBonus 2) > 100
   \<and> totalScore 150 120 (velocityBonus 2) = 100"
  using C6_composite_score
      [of 150 120 2 "\<lparr>memory_answers = [], comment_answers = [], velocity = []\<rparr>"]
  by (simp add: velocityBonus_def)

text \<open>
  C10. For every answer log the forget and fuzzy rates sum to at most 1 and the false-memory
  rate is at most 1, so a track score is at most 70 and the \<open>min(100, _)\<close> clamp of
  \<open>calculateVibeMetrics\<close> never changes it. Hence the total score of every quiz result is at
  most \<open>round(70*0.5 + 70*0.35 + 15) = 75\<close>, and the two highest rating tiers (86 to 99, and
  100) are never awarded.
\<close>

theorem C10_scores_bounded:
  "spec_forgetRate answers + spec_fuzzyRate answers \<le> 1
   \<and> spec_falseMemoryRate answers \<le> 1
   \<and> vibeScore_unclamped answers \<le> 70
   \<and> vibeScore (calculateVibeMetrics answers) = vibeScore_unclamped answers
   \<and> vibeScore (calculateVibeMetrics answers) \<le> 70
   \<and> totalScore 70 70 15 = 75
   \<and> ResultScreen_totalScore result \<le> 75
   \<and> \<not> 75 < ResultScreen_totalScore result
   \<and> ResultScreen_rating result \<noteq> HumanoidCopilot
   \<and> ResultScreen_rating result \<noteq> AIPuppet"
  using rates_le(1,2) [of answers] unclamped_le_70 [of answers]
    ResultScreen_totalScore_le_75 [of result]
  by (simp add: vibeScore_is_unclamped totalScore_70_70_15 ResultScreen_rating_def)

section \<open>Properties of the question sampler\<close>

lemma length_js_slice0:
  "0 \<le> e \<Longrightarrow> length (js_slice xs 0 e) = min (nat e) (length xs)"
  by (simp add: js_slice_def Let_def)

lemma set_js_slice: "set (js_slice xs s e) \<subseteq> set xs"
  unfolding js_slice_def Let_def
  by (meson set_take_subset set_drop_subset subset_trans)

lemma ceil_six_tenths_le: "Math_ceil (rat_of_nat Q * (6 / 10)) \<le> int Q"
proof -
  have "rat_of_nat Q * (6 / 10) \<le> rat_of_int (int Q)" by simp
  then show ?thesis unfolding Math_ceil_def by (simp only: ceiling_le_iff)
qed

lemma ceil_six_tenths_ge: "0 \<le> Math_ceil (rat_of_nat Q * (6 / 10))"
  unfolding Math_ceil_def by (simp add: le_ceiling_iff)

lemma counts_nonneg:
  "0 \<le> myCount Q m" "0 \<le> otherCount' Q m ot" "0 \<le> finalMyCount Q m ot"
  "myCount Q m \<le> int Q" "otherCount' Q m ot \<le> int Q"
  using ceil_six_tenths_le [of Q] ceil_six_tenths_ge [of Q]
  by (auto simp: myCount_def otherCount'_def finalMyCount_def)

lemma counts_nat:
  "nat (myCount Q m) = min (nat \<lceil>rat_of_nat Q * (6 / 10)\<rceil>) m"
  "nat (otherCount' Q m ot) = min (Q - min (nat \<lceil>rat_of_nat Q * (6 / 10)\<rceil>) m) ot"
  "nat (finalMyCount Q m ot)
     = min (Q - min (Q - min (nat \<lceil>rat_of_nat Q * (6 / 10)\<rceil>) m) ot) m"
proof -
  define c where "c = nat \<lceil>rat_of_nat Q * (6 / 10)\<rceil>"
  have c: "\<lceil>rat_of_nat Q * (6 / 10)\<rceil> = int c" "c \<le> Q"
    using ceil_six_tenths_le [of Q] ceil_six_tenths_ge [of Q]
    by (simp_all add: c_def Math_ceil_def)
  show "nat (myCount Q m) = min (nat \<lceil>rat_of_nat Q * (6 / 10)\<rceil>) m"
    unfolding myCount_def Math_ceil_def c using c(2) by simp
  show "nat (otherCount' Q m ot) = min (Q - min (nat \<lceil>rat_of_nat Q * (6 / 10)\<rceil>) m) ot"
    unfolding otherCount'_def myCount_def Math_ceil_def c using c(2) by simp
  show "nat (finalMyCount Q m ot)
     = min (Q - min (Q - min (nat \<lceil>rat_of_nat Q * (6 / 10)\<rceil>) m) ot) m"
    unfolding finalMyCount_def otherCount'_def myCount_def Math_ceil_def c using c(2)
    by simp linarith
qed

lemma filter_all: "set xs \<subseteq> set (filter P ys) \<Longrightarrow> filter P xs = xs"
  by (induction xs) auto
lemma filter_none: "set xs \<subseteq> set (filter (\<lambda>x. \<not> P x) ys) \<Longrightarrow> filter P xs = []"
  by (induction xs) auto

lemma prepareQuestions_counts:
  fixes snippets :: "'a list" and isMyCode :: "'a \<Rightarrow> bool"
  assumes perm: "\<And>k xs. mset (shuffle k xs) = mset xs"
  defines "my \<equiv> filter isMyCode snippets" and "other \<equiv> filter (\<lambda>s. \<not> isMyCode s) snippets"
  shows "length (filter isMyCode (prepareQuestions shuffle isMyCode Q snippets))
           = min (nat (finalMyCount Q (length my) (length other))) (length my)"
    and "length (filter (\<lambda>s. \<not> isMyCode s) (prepareQuestions shuffle isMyCode Q snippets))
           = min (nat (otherCount' Q (length my) (length other))) (length other)"
    and "length (prepareQuestions shuffle isMyCode Q snippets)
           = min (nat (finalMyCount Q (length my) (length other))) (length my)
             + min (nat (otherCount' Q (length my) (length other))) (length other)"
proof -
  define a where "a = js_slice (shuffle 0 my) 0 (finalMyCount Q (length my) (length other))"
  define b where "b = js_slice (shuffle 1 other) 0 (otherCount' Q (length my) (length other))"
  have shuffle_length: "length (shuffle k xs) = length xs" for k xs
    using perm [of k xs] by (metis size_mset)
  have shuffle_filter_length: "length (filter P (shuffle k xs)) = length (filter P xs)"
    for P k xs
    using perm [of k xs] by (metis mset_filter size_mset)
  have shuffle_set: "set (shuffle k xs) = set xs" for k xs
    using perm [of k xs] by (metis set_mset_mset)
  have pq: "prepareQuestions shuffle isMyCode Q snippets = shuffle 2 (a @ b)"
    unfolding prepareQuestions_def Let_def a_def b_def my_def other_def by (rule refl)
  have "set a \<subseteq> set (shuffle 0 my)" unfolding a_def by (rule set_js_slice)
  also have "\<dots> = set my" by (rule shuffle_set)
  finally have sa: "set a \<subseteq> set (filter isMyCode snippets)"
    by (simp only: my_def)
  have "set b \<subseteq> set (shuffle 1 other)" unfolding b_def by (rule set_js_slice)
  also have "\<dots> = set other" by (rule shuffle_set)
  finally have sb: "set b \<subseteq> set (filter (\<lambda>s. \<not> isMyCode s) snippets)"
    by (simp only: other_def)
  have fa: "filter isMyCode a = a" using sa by (rule filter_all)
  have fb: "filter isMyCode b = []" using sb by (rule filter_none)
  have fa': "filter (\<lambda>s. \<not> isMyCode s) a = []"
    using sa by (auto simp: filter_empty_conv)
  have fb': "filter (\<lambda>s. \<not> isMyCode s) b = b"
    using sb by (rule filter_all)
  have la: "length a = min (nat (finalMyCount Q (length my) (length other))) (length my)"
    unfolding a_def by (simp add: length_js_slice0 counts_nonneg shuffle_length)
  have lb: "length b = min (nat (otherCount' Q (length my) (length other))) (length other)"
    unfolding b_def by (simp add: length_js_slice0 counts_nonneg shuffle_length)
  show "length (filter isMyCode (prepareQuestions shuffle isMyCode Q snippets))
           = min (nat (finalMyCount Q (length my) (length other))) (length my)"
    unfolding pq shuffle_filter_length by (simp add: fa fb la)
  show "length (filter (\<lambda>s. \<not> isMyCode s) (prepareQuestions shuffle isMyCode Q snippets))
           = min (nat (otherCount' Q (length my) (length other))) (length other)"
    unfolding pq shuffle_filter_length by (simp add: fa' fb' lb)
  show "length (prepareQuestions shuffle isMyCode Q snippets)
           = min (nat (finalMyCount Q (length my) (length other))) (length my)
             + min (nat (otherCount' Q (length my) (length other))) (length other)"
    unfolding pq shuffle_length by (simp add: la lb)
qed

text \<open>
  C8. Let every call of the shuffle return a permutation of its argument. For every pool and
  every target \<open>Q\<close>, with \<open>selfShare = min(ceil(Q*0.6), selfPoolSize)\<close> and
  \<open>otherShare = min(Q - selfShare, otherPoolSize)\<close> and
  \<open>finalSelfShare = min(Q - otherShare, selfPoolSize)\<close>, the question list holds exactly
  \<open>finalSelfShare\<close> self-authored and \<open>otherShare\<close> other-authored fragments. With 2
  self-authored and 20 other-authored fragments and \<open>Q = 10\<close> these are 2 and 8, 10 in all.
\<close>

theorem C8_sampler_shares:
  assumes perm: "\<And>k xs. mset (shuffle k xs) = mset xs"
  shows
  "(let selfPoolSize = length (filter isMyCode snippets);
        otherPoolSize = length (filter (\<lambda>s. \<not> isMyCode s) snippets);
        selfShare = min (nat \<lceil>rat_of_nat Q * (6 / 10)\<rceil>) selfPoolSize;
        otherShare = min (Q - selfShare) otherPoolSize;
        finalSelfShare = min (Q - otherShare) selfPoolSize;
        questions = prepareQuestions shuffle isMyCode Q snippets
    in length (filter isMyCode questions) = finalSelfShare
       \<and> length (filter (\<lambda>s. \<not> isMyCode s) questions) = otherShare
       \<and> length questions = finalSelfShare + otherShare)
   \<and> (length (filter isMyCode snippets) = 2
        \<and> length (filter (\<lambda>s. \<not> isMyCode s) snippets) = 20
      \<longrightarrow> length (filter isMyCode (prepareQuestions shuffle isMyCode 10 snippets)) = 2
          \<and> length (filter (\<lambda>s. \<not> isMyCode s)
                 (prepareQuestions shuffle isMyCode 10 snippets)) = 8
          \<and> length (prepareQuestions shuffle isMyCode 10 snippets) = 10)"
proof -
  have ceil10: "nat \<lceil>rat_of_nat 10 * (6 / 10)\<rceil> = 6"
    by (simp add: ceiling_eq_iff)
  show ?thesis
    unfolding Let_def prepareQuestions_counts [OF perm] counts_nat
    by (auto simp: ceil10)
qed

theorem C8_sampler_shares_witness:
  "(\<forall>k. \<forall>xs :: bool list. mset (reversing k xs) = mset xs)
   \<and> length (filter (\<lambda>b. b) (replicate 2 True @ replicate 20 False)) = 2
   \<and> length (filter (\<lambda>b. \<not> b) (replicate 2 True @ replicate 20 False)) = 20
   \<and> length (filter (\<lambda>b. b)
         (prepareQuestions reversing (\<lambda>b. b) 10 (replicate 2 True @ replicate 20 False))) = 2
   \<and> length (filter (\<lambda>b. \<not> b)
         (prepareQuestions reversing (\<lambda>b. b) 10 (replicate 2 True @ replicate 20 False))) = 8
   \<and> length (prepareQuestions reversing (\<lambda>b. b) 10 (replicate 2 True @ replicate 20 False)) = 10"
  using C8_sampler_shares [of reversing "\<lambda>b. b" "replicate 2 True @ replicate 20 False" 10]
  by (simp add: reversing_def)

lemma example_pool_questions:
  "prepareQuestions reversing cs_isMyCode MEMORY_QUESTIONS example_code_pool = example_code_pool"
  by (simp add: prepareQuestions_def Let_def example_code_pool_def mkCodeSnippet_def
      example_origin_def finalMyCount_def otherCount'_def myCount_def Math_ceil_def
      MEMORY_QUESTIONS_def js_slice_def ceiling_eq_iff reversing_def)

lemma no_comment_questions:
  "prepareQuestions reversing cm_isMyCode COMMENT_QUESTIONS [] = []"
  by (simp add: prepareQuestions_def Let_def js_slice_def reversing_def)

text \<open>
  C3 as stated fails: three self-authored code fragments and no comment fragment give three
  code questions and no comment question, and the run is not failed but ready to start.
\<close>

theorem C3_comment_shortfall_counterexample:
  "length (commentQuestions example_scan_result) < 3
   \<and> length (memoryQuestions example_scan_result) = 3
   \<and> \<not> run_failed example_scan_result
   \<and> phase example_scan_result = phase_ready"
  unfolding example_scan_result_def
  by (simp add: scanCode_finish_def Let_def example_pool_questions no_comment_questions
      run_failed_def scanning_state_def) (simp add: example_code_pool_def)

text \<open>
  C3, amended. The run fails with the too-few-code-snippets message exactly when the code
  track has fewer than 3 questions. The number of comment questions is not checked: with at
  least 3 code questions the run becomes ready whatever the comment track holds, and when
  the comment track has no question the quiz goes from the last code question to the result.
\<close>

theorem C3_code_shortfall_only:
  assumes "error st = None"
  shows "memoryQuestions (scanCode_finish shuffle shuffle' codeSnippets commentSnippets st)
           = prepareQuestions shuffle cs_isMyCode MEMORY_QUESTIONS codeSnippets
     \<and> commentQuestions (scanCode_finish shuffle shuffle' codeSnippets commentSnippets st)
           = prepareQuestions shuffle' cm_isMyCode COMMENT_QUESTIONS commentSnippets
     \<and> (run_failed (scanCode_finish shuffle shuffle' codeSnippets commentSnippets st)
          \<longleftrightarrow> length (prepareQuestions shuffle cs_isMyCode MEMORY_QUESTIONS codeSnippets) < 3)
     \<and> (3 \<le> length (prepareQuestions shuffle cs_isMyCode MEMORY_QUESTIONS codeSnippets)
          \<longrightarrow> phase (scanCode_finish shuffle shuffle' codeSnippets commentSnippets st)
                = phase_ready)
     \<and> (3 \<le> length (prepareQuestions shuffle cs_isMyCode MEMORY_QUESTIONS codeSnippets)
          \<and> prepareQuestions shuffle' cm_isMyCode COMMENT_QUESTIONS commentSnippets = []
          \<longrightarrow> phase (after_last_memory_answer
                  (scanCode_finish shuffle shuffle' codeSnippets commentSnippets st))
                = phase_result)"
  using assms
  by (simp add: scanCode_finish_def Let_def run_failed_def after_last_memory_answer_def)

theorem C3_code_shortfall_only_witness:
  "error scanning_state = None
   \<and> 3 \<le> length (prepareQuestions reversing cs_isMyCode MEMORY_QUESTIONS example_code_pool)
   \<and> prepareQuestions reversing cm_isMyCode COMMENT_QUESTIONS [] = []
   \<and> \<not> run_failed example_scan_result
   \<and> phase example_scan_result = phase_ready
   \<and> phase (after_last_memory_answer example_scan_result) = phase_result"
  unfolding example_scan_result_def
  using C3_code_shortfall_only [of scanning_state reversing reversing example_code_pool "[]"]
  by (simp add: example_pool_questions no_comment_questions)
     (simp add: scanning_state_def example_code_pool_def)

section \<open>Properties of the snippet windower\<close>

lemma windowLen_div: "windowLen L = min (min 12 (int L)) (max 4 (int (7 * L div 10)))"
proof -
  have "Math_floor (rat_of_nat L * (7 / 10)) = int (7 * L div 10)"
  proof -
    have "rat_of_nat L * (7 / 10) = rat_of_int (int (7 * L)) / rat_of_int 10" by simp
    then have "\<lfloor>rat_of_nat L * (7 / 10)\<rfloor> = int (7 * L) div 10"
      by (simp only: floor_divide_of_int_eq)
    then show ?thesis by (simp add: Math_floor_def zdiv_int)
  qed
  then show ?thesis
    by (simp add: windowLen_def Let_def MAX_SNIPPET_LINES_def MIN_SNIPPET_LINES_def)
qed

lemma windowLen_bounds:
  assumes "4 \<le> L"
  shows "4 \<le> windowLen L" "windowLen L \<le> 12" "windowLen L \<le> int L"
  using assms unfolding windowLen_div by auto

lemma startIdx_bounds:
  assumes "0 \<le> u" "u < 1" "1 \<le> m"
  shows "0 \<le> Math_floor (u * rat_of_int m)" "Math_floor (u * rat_of_int m) \<le> m - 1"
proof -
  have "0 \<le> u * rat_of_int m" using assms by simp
  then show "0 \<le> Math_floor (u * rat_of_int m)" by (simp add: Math_floor_def)
  have "u * rat_of_int m < rat_of_int m" using assms by simp
  then have "\<lfloor>u * rat_of_int m\<rfloor> < m" by (simp only: floor_less_iff)
  then show "Math_floor (u * rat_of_int m) \<le> m - 1" by (simp add: Math_floor_def)
qed

lemma js_slice_inside:
  assumes "0 \<le> i" "0 \<le> l" "i + l \<le> int (length xs)"
  shows "js_slice xs i (i + l) = take (nat l) (drop (nat i) xs)"
    and "length (js_slice xs i (i + l)) = nat l"
  using assms by (auto simp: js_slice_def Let_def)

lemma windowSnippet_Some:
  assumes L: "MIN_SNIPPET_LINES \<le> length block" and u: "0 \<le> u" "u < 1"
  shows "\<exists>i. i + nat (windowLen (length block)) \<le> length block
           \<and> windowSnippet u block = Some (take (nat (windowLen (length block))) (drop i block))"
proof -
  define len where "len = windowLen (length block)"
  define m where "m = max 1 (int (length block) - len + 1)"
  define s where "s = Math_floor (u * rat_of_int m)"
  have L4: "4 \<le> length block" using L by (simp add: MIN_SNIPPET_LINES_def)
  have wb: "4 \<le> len" "len \<le> int (length block)"
    using windowLen_bounds [OF L4] by (simp_all add: len_def)
  have m1: "1 \<le> m" by (simp add: m_def)
  have m: "m - 1 = int (length block) - len" using wb by (simp add: m_def)
  have s: "0 \<le> s" "s \<le> int (length block) - len"
    using startIdx_bounds [OF u m1] by (simp_all add: s_def m)
  have in_range: "s + len \<le> int (length block)" using s by simp
  have len0: "0 \<le> len" using wb by simp
  have sl: "js_slice block s (s + len) = take (nat len) (drop (nat s) block)"
    "length (js_slice block s (s + len)) = nat len"
    using js_slice_inside [OF s(1) len0 in_range] by simp_all
  have ge: "MIN_SNIPPET_LINES \<le> nat len" using wb by (simp add: MIN_SNIPPET_LINES_def)
  have "windowSnippet u block = Some (js_slice block s (s + len))"
    unfolding windowSnippet_def Let_def len_def [symmetric] m_def [symmetric] s_def [symmetric]
    using L ge by (simp only: sl(2) if_True)
  then have "windowSnippet u block = Some (take (nat len) (drop (nat s) block))"
    by (simp only: sl(1))
  moreover have "nat s + nat len \<le> length block" using s wb by linarith
  ultimately show ?thesis unfolding len_def by blast
qed

lemma seven_tenths: "7 * L div 10 \<le> (L::nat)" "1 \<le> L \<Longrightarrow> 7 * L div 10 < L"
  by simp_all


text \<open>
  C1, amended. For every code block of at least \<open>MIN_SNIPPET_LINES\<close> lines and every
  random value in \<open>[0, 1)\<close> one snippet is cut, of length
  \<open>clamp(floor(L*0.7), 4, min(12, L))\<close>. For \<open>L\<close> up to 12 this is \<open>max(4, floor(L*0.7))\<close>,
  which is \<open>L\<close> only for \<open>L = 4\<close>; for \<open>L = 20\<close> it is 12.
\<close>

theorem C1_window_length:
  assumes L: "MIN_SNIPPET_LINES \<le> length block" and u: "0 \<le> u" "u < 1"
  shows "\<exists>snippet. windowSnippet u block = Some snippet
     \<and> int (length snippet)
         = min (min (int MAX_SNIPPET_LINES) (int (length block)))
               (max (int MIN_SNIPPET_LINES) \<lfloor>rat_of_nat (length block) * (7 / 10)\<rfloor>)
     \<and> (length block \<le> 12 \<longrightarrow> length snippet = max 4 (7 * length block div 10))
     \<and> (length snippet = length block \<longleftrightarrow> length block = 4)
     \<and> (length block = 20 \<longrightarrow> length snippet = 12)"
proof -
  define n where "n = length block"
  define f where "f = 7 * n div 10"
  have L4: "4 \<le> n" using L by (simp add: MIN_SNIPPET_LINES_def n_def)
  obtain i where i: "i + nat (windowLen n) \<le> n"
    and w: "windowSnippet u block = Some (take (nat (windowLen n)) (drop i block))"
    using windowSnippet_Some [OF assms] unfolding n_def by blast
  define sn where "sn = take (nat (windowLen n)) (drop i block)"
  have wl: "windowLen n = min (min 12 (int n)) (max 4 (int f))"
    by (simp only: windowLen_div f_def)
  have len: "int (length sn) = windowLen n"
    using i windowLen_bounds [OF L4] by (simp add: sn_def n_def)
  have f: "f \<le> n" "f < n" "n = 4 \<longrightarrow> f = 2" "n = 20 \<longrightarrow> f = 14"
    using L4 by (simp_all add: f_def)
  have 1: "int (length sn)
         = min (min (int MAX_SNIPPET_LINES) (int n))
               (max (int MIN_SNIPPET_LINES) \<lfloor>rat_of_nat n * (7 / 10)\<rfloor>)"
    unfolding len by (simp add: windowLen_def Let_def Math_floor_def)
  have "int (length sn) = min (min 12 (int n)) (max 4 (int f))"
    using len wl by simp
  then have lsn: "length sn = min (min 12 n) (max 4 f)" by linarith
  have 2: "n \<le> 12 \<longrightarrow> length sn = max 4 f"
    using lsn L4 f(1) by linarith
  have 3: "length sn = n \<longleftrightarrow> n = 4"
    using lsn L4 f(2,3) by linarith
  have 4: "n = 20 \<longrightarrow> length sn = 12"
    using lsn f(4) by linarith
  have w': "windowSnippet u block = Some sn"
    using w by (simp only: sn_def)
  show ?thesis
  proof (intro exI conjI)
    show "windowSnippet u block = Some sn" by (rule w')
    show "int (length sn)
         = min (min (int MAX_SNIPPET_LINES) (int (length block)))
               (max (int MIN_SNIPPET_LINES) \<lfloor>rat_of_nat (length block) * (7 / 10)\<rfloor>)"
      using 1 by (simp only: n_def)
    show "length block \<le> 12 \<longrightarrow> length sn = max 4 (7 * length block div 10)"
      using 2 by (simp only: n_def f_def)
    show "length sn = length block \<longleftrightarrow> length block = 4"
      using 3 by (simp only: n_def)
    show "length block = 20 \<longrightarrow> length sn = 12"
      using 4 by (simp only: n_def)
  qed
qed

section \<open>Properties of the block accumulator\<close>

lemma startsWith_simps:
  "startsWith line (str ''@@'') \<longleftrightarrow> take 2 line = [64, 64]"
  "startsWith line (str ''+'') \<longleftrightarrow> take 1 line = [43]"
  "startsWith line (str ''+++'') \<longleftrightarrow> take 3 line = [43, 43, 43]"
  "startsWith line (str ''-'') \<longleftrightarrow> take 1 line = [45]"
  "startsWith line (str '' '') \<longleftrightarrow> take 1 line = [32]"
  by (simp_all add: startsWith_def str_def eval_nat_numeral)

lemma not_hunk_header:
  "is_added line \<Longrightarrow> \<not> is_hunk_header line"
  "is_context_or_deletion line \<Longrightarrow> \<not> is_hunk_header line"
  "is_context_or_deletion line \<Longrightarrow> \<not> is_added line"
  by (cases line; auto simp: is_added_def is_hunk_header_def is_context_or_deletion_def
      startsWith_simps eval_nat_numeral)+

lemma step_line_unfold:
  "step_line st line =
     (if is_hunk_header line then
        (push_code_block (st\<lparr>inHunk := True\<rparr>))\<lparr>currentCodeBlock := []\<rparr>
      else if \<not> inHunk st then st
      else if is_added line then added_step st (drop 1 line)
      else if is_context_or_deletion line then flush_code st
      else st)"
  unfolding step_line_def is_hunk_header_def [symmetric] is_added_def [symmetric]
    is_context_or_deletion_def [symmetric] Let_def flush_comment_def [symmetric]
    added_step_def classify_def flush_code_def push_line_def
  by (simp add: Let_def)

lemma step_line_hunk_header:
  "is_hunk_header line \<Longrightarrow>
   step_line st line = (push_code_block (st\<lparr>inHunk := True\<rparr>))\<lparr>currentCodeBlock := []\<rparr>"
  by (simp only: step_line_unfold if_True)

lemma step_line_outside_hunk:
  "\<not> is_hunk_header line \<Longrightarrow> \<not> inHunk st \<Longrightarrow> step_line st line = st"
  by (simp only: step_line_unfold if_True if_False not_False_eq_True)

lemma step_line_added:
  "inHunk st \<Longrightarrow> is_added line \<Longrightarrow> step_line st line = added_step st (drop 1 line)"
  using not_hunk_header(1) [of line]
  by (simp only: step_line_unfold if_True if_False not_True_eq_False)

lemma step_line_context:
  "inHunk st \<Longrightarrow> is_context_or_deletion line \<Longrightarrow> step_line st line = flush_code st"
  using not_hunk_header(2,3) [of line]
  by (simp only: step_line_unfold if_True if_False not_True_eq_False)

lemma step_line_other:
  "inHunk st \<Longrightarrow> \<not> is_hunk_header line \<Longrightarrow> \<not> is_added line \<Longrightarrow> \<not> is_context_or_deletion line
   \<Longrightarrow> step_line st line = st"
  by (simp only: step_line_unfold if_True if_False not_True_eq_False)


lemma flush_comment_fields:
  "codeBlocks (flush_comment st) = codeBlocks st"
  "currentCodeBlock (flush_comment st) = currentCodeBlock st"
  "contextBuffer (flush_comment st) = contextBuffer st"
  "inHunk (flush_comment st) = inHunk st"
  "currentCommentBlock (flush_comment st) = []"
  "commentBlocksWithContext (flush_comment st) =
     (if currentCommentBlock st = [] then commentBlocksWithContext st
      else commentBlocksWithContext st
           @ [\<lparr>cb_comment = currentCommentBlock st,
               cb_context = js_slice_from (contextBuffer st) (- 2)\<rparr>])"
  by (simp_all add: flush_comment_def push_comment_block_def)

lemma flush_code_fields:
  "codeBlocks (flush_code st) =
     (if MIN_SNIPPET_LINES \<le> length (currentCodeBlock st)
      then codeBlocks st @ [currentCodeBlock st] else codeBlocks st)"
  "currentCodeBlock (flush_code st) =
     (if MIN_SNIPPET_LINES \<le> length (currentCodeBlock st) then [] else currentCodeBlock st)"
  "currentCommentBlock (flush_code st) = currentCommentBlock st"
  "commentBlocksWithContext (flush_code st) = commentBlocksWithContext st"
  "contextBuffer (flush_code st) = contextBuffer st"
  "inHunk (flush_code st) = inHunk st"
  by (simp_all add: flush_code_def push_code_block_def)

lemma push_line_fields:
  "codeBlocks (push_line l st) = codeBlocks st"
  "currentCodeBlock (push_line l st) = currentCodeBlock st @ [l]"
  "currentCommentBlock (push_line l st) = currentCommentBlock st"
  "commentBlocksWithContext (push_line l st) = commentBlocksWithContext st"
  "inHunk (push_line l st) = inHunk st"
  by (simp_all add: push_line_def)





subsection \<open>The example file sections\<close>

lemmas classifier_defs =
  isFixedPattern_def isCommentLine_def isNoiseLine_def FIXED_PATTERNS_def
  COMMENT_PATTERNS_def kw_def Lit_def Chr_def Seqs_def Alts_def Opt_def OneOf_def Plus_def
  ws_def nws_def wd_def upper_def is_ws_def is_word_def is_upper_def str_def trim_def

lemma ex_code1_class: "classify ex_code1 = Substantive"
  by (simp add: classify_def ex_code1_def classifier_defs)

lemma ex_code2_class: "classify ex_code2 = Substantive"
  by (simp add: classify_def ex_code2_def classifier_defs)

lemma ex_code3_class: "classify ex_code3 = Substantive"
  by (simp add: classify_def ex_code3_def classifier_defs)

lemma ex_code4_class: "classify ex_code4 = Substantive"
  by (simp add: classify_def ex_code4_def classifier_defs)

lemma ex_code5_class: "classify ex_code5 = Substantive"
  by (simp add: classify_def ex_code5_def classifier_defs)

lemma ex_short_comment_class:
  "classify ex_short_comment = Substantive" "isCommentLine ex_short_comment"
  "length (trim ex_short_comment) = 13" "\<not> isFixedPattern ex_short_comment"
  "\<not> isNoiseLine ex_short_comment"
  by (simp_all add: classify_def ex_short_comment_def classifier_defs)

lemma ex_tiny_comment_class:
  "classify ex_tiny_comment = Noise" "isCommentLine ex_tiny_comment"
  "length (trim ex_tiny_comment) = 4" "\<not> isFixedPattern ex_tiny_comment"
  "isNoiseLine ex_tiny_comment"
  by (simp_all add: classify_def ex_tiny_comment_def classifier_defs)

lemma ex_noise_class: "classify ex_noise = Noise"
  by (simp add: classify_def ex_noise_def classifier_defs)

lemma ex_line_kinds:
  "is_hunk_header ex_hunk"
  "is_added (added ex_code1)" "is_added (added ex_code2)" "is_added (added ex_code3)"
  "is_added (added ex_code4)" "is_added (added ex_code5)" "is_added (added ex_noise)"
  "is_added (added ex_short_comment)" "is_added (added ex_tiny_comment)"
  "is_context_or_deletion ex_context"
  by (simp_all add: is_hunk_header_def is_added_def is_context_or_deletion_def startsWith_def
      added_def str_def ex_hunk_def ex_code1_def ex_code2_def ex_code3_def ex_code4_def
      ex_code5_def ex_noise_def ex_short_comment_def ex_tiny_comment_def ex_context_def)

lemma drop_added: "drop (Suc 0) (added l) = l"
  by (simp add: added_def)

lemmas ex_classes =
  ex_code1_class ex_code2_class ex_code3_class ex_code4_class ex_code5_class ex_noise_class
  ex_short_comment_class(1) ex_tiny_comment_class(1)

lemmas run_simps =
  collectBlocks_def acc_init_def step_line_hunk_header step_line_added step_line_context
  ex_line_kinds drop_added added_step_def ex_classes flush_code_def flush_comment_def
  push_line_def push_code_block_def push_comment_block_def MIN_SNIPPET_LINES_def



lemma blocks_with_short_comment:
  "codeBlocks (collectBlocks section_with_short_comment)
     = [[ex_short_comment, ex_code1, ex_code2, ex_code3]]"
  "commentBlocksWithContext (collectBlocks section_with_short_comment) = []"
  by (simp_all add: section_with_short_comment_def run_simps)

lemma blocks_of_five:
  "codeBlocks (collectBlocks section_of_five)
     = [[ex_code1, ex_code2, ex_code3, ex_code4, ex_code5]]"
  by (simp add: section_of_five_def run_simps)

lemma window_of_five:
  "windowSnippet (zero_draws 0) [ex_code1, ex_code2, ex_code3, ex_code4, ex_code5]
     = Some [ex_code1, ex_code2, ex_code3, ex_code4]"
  by (simp add: windowSnippet_def windowLen_def Let_def zero_draws_def MIN_SNIPPET_LINES_def
      MAX_SNIPPET_LINES_def Math_floor_def js_slice_def floor_eq_iff)

lemma snippets_of_five:
  "map code (fst (extractSnippetsFromFile zero_draws example_origin section_of_five))
     = [[ex_code1, ex_code2, ex_code3, ex_code4]]"
  by (simp add: extractSnippetsFromFile_def Let_def blocks_of_five window_of_five
      MIN_SNIPPET_LINES_def mkCodeSnippet_def)


lemma after_hunk_header_eval:
  "after_hunk_header =
     \<lparr>codeBlocks = [], commentBlocksWithContext = [], currentCodeBlock = [],
      currentCommentBlock = [], contextBuffer = [], inHunk = True\<rparr>"
  by (simp add: after_hunk_header_def run_simps)

subsection \<open>The claims about the accumulator and the classifier\<close>




lemma short_is_noise: "length (trim l) < 8 \<Longrightarrow> isNoiseLine l"
  by (simp add: isNoiseLine_def Let_def)

text \<open>
  C4 as stated fails. The added line \<open>// short note\<close> matches a comment pattern and has 13
  characters; it becomes the first line of a code block and of the snippet cut from it.
\<close>

theorem C4_short_comment_counterexample:
  "is_added (added ex_short_comment) \<and> isCommentLine ex_short_comment
   \<and> length (trim ex_short_comment) \<le> 15
   \<and> codeBlocks (collectBlocks section_with_short_comment)
       = [[ex_short_comment, ex_code1, ex_code2, ex_code3]]
   \<and> map code (fst (extractSnippetsFromFile zero_draws example_origin
                       section_with_short_comment))
       = [[ex_short_comment, ex_code1, ex_code2, ex_code3]]"
proof -
  have w: "windowSnippet (zero_draws 0) [ex_short_comment, ex_code1, ex_code2, ex_code3]
     = Some [ex_short_comment, ex_code1, ex_code2, ex_code3]"
    by (simp add: windowSnippet_def windowLen_def Let_def zero_draws_def MIN_SNIPPET_LINES_def
        MAX_SNIPPET_LINES_def Math_floor_def js_slice_def floor_eq_iff)
  show ?thesis
    by (simp add: ex_line_kinds ex_short_comment_class blocks_with_short_comment
        extractSnippetsFromFile_def Let_def w mkCodeSnippet_def MIN_SNIPPET_LINES_def)
qed

text \<open>
  C4, amended. Inside a hunk, an added line that matches a comment pattern and has at most
  15 characters after trimming is never classified as a comment and enters no comment block:
  unless it is boilerplate, it closes the comment buffer without joining it. It is then
  treated as any other line: when the noise filter holds of it, as for every line shorter than
  8 characters, it enters no code block; otherwise it is appended to the code buffer.
\<close>

theorem C4_short_comment_lines:
  assumes "inHunk st" "is_added line" "isCommentLine (drop 1 line)"
    "length (trim (drop 1 line)) \<le> 15"
  shows "classify (drop 1 line) \<noteq> CommentLine
   \<and> (isFixedPattern (drop 1 line) \<longrightarrow> step_line st line = st)
   \<and> (\<not> isFixedPattern (drop 1 line) \<longrightarrow>
        currentCommentBlock (step_line st line) = []
        \<and> commentBlocksWithContext (step_line st line)
            = (if currentCommentBlock st = [] then commentBlocksWithContext st
               else commentBlocksWithContext st
                    @ [\<lparr>cb_comment = currentCommentBlock st,
                        cb_context = js_slice_from (contextBuffer st) (- 2)\<rparr>]))
   \<and> (\<not> isFixedPattern (drop 1 line) \<and> isNoiseLine (drop 1 line) \<longrightarrow>
        currentCodeBlock (step_line st line)
          = (if MIN_SNIPPET_LINES \<le> length (currentCodeBlock st) then []
             else currentCodeBlock st))
   \<and> (\<not> isFixedPattern (drop 1 line) \<and> \<not> isNoiseLine (drop 1 line) \<longrightarrow>
        currentCodeBlock (step_line st line) = currentCodeBlock st @ [drop 1 line])
   \<and> (length (trim (drop 1 line)) < 8 \<longrightarrow> isNoiseLine (drop 1 line))"
proof -
  define l where "l = drop 1 line"
  have s: "step_line st line = added_step st l"
    unfolding l_def using assms(1,2) by (rule step_line_added)
  have c: "classify l =
      (if isFixedPattern l then Boilerplate
       else if isNoiseLine l then Noise else Substantive)"
    using assms(4) by (simp add: classify_def l_def)
  show ?thesis
    unfolding s l_def [symmetric]
    by (simp add: c added_step_def flush_code_fields flush_comment_fields push_line_fields
        short_is_noise)
qed

text \<open>
  The amended C4 at \<open>// short note\<close>, which is appended to the code buffer, and at
  \<open>// x\<close>, which is noise.
\<close>

theorem C4_short_comment_lines_witness:
  "inHunk after_hunk_header
   \<and> is_added (added ex_short_comment) \<and> isCommentLine (drop 1 (added ex_short_comment))
   \<and> length (trim (drop 1 (added ex_short_comment))) \<le> 15
   \<and> \<not> isFixedPattern (drop 1 (added ex_short_comment))
   \<and> \<not> isNoiseLine (drop 1 (added ex_short_comment))
   \<and> currentCommentBlock (step_line after_hunk_header (added ex_short_comment)) = []
   \<and> currentCodeBlock (step_line after_hunk_header (added ex_short_comment))
       = [ex_short_comment]
   \<and> is_added (added ex_tiny_comment) \<and> isCommentLine (drop 1 (added ex_tiny_comment))
   \<and> length (trim (drop 1 (added ex_tiny_comment))) < 8
   \<and> \<not> isFixedPattern (drop 1 (added ex_tiny_comment))
   \<and> isNoiseLine (drop 1 (added ex_tiny_comment))
   \<and> currentCodeBlock (step_line after_hunk_header (added ex_tiny_comment)) = []"
  using C4_short_comment_lines [of after_hunk_header "added ex_short_comment"]
    C4_short_comment_lines [of after_hunk_header "added ex_tiny_comment"]
  by (simp add: ex_line_kinds drop_added ex_short_comment_class ex_tiny_comment_class)
     (simp add: after_hunk_header_eval)

lemma zero_draws_range: "0 \<le> zero_draws i" "zero_draws i < 1"
  by (simp_all add: zero_draws_def)

text \<open>
  C1 as stated fails for \<open>L = 5\<close>: a file section with five substantive lines yields one
  code block of five lines, and the snippet cut from it has four.
\<close>

theorem C1_window_length_counterexample:
  "map length (codeBlocks (collectBlocks section_of_five)) = [5]
   \<and> 0 \<le> zero_draws 0 \<and> zero_draws 0 < 1
   \<and> map (length \<circ> code) (fst (extractSnippetsFromFile zero_draws example_origin section_of_five))
       = [4]"
proof -
  have "map (length \<circ> code)
          (fst (extractSnippetsFromFile zero_draws example_origin section_of_five))
        = map length (map code
          (fst (extractSnippetsFromFile zero_draws example_origin section_of_five)))"
    by simp
  also have "\<dots> = [4]"
    by (simp only: snippets_of_five) simp
  finally show ?thesis
    by (simp add: blocks_of_five zero_draws_range)
qed

text \<open>The amended C1 at a block of five lines and the random value 0.\<close>

theorem C1_window_length_witness:
  "MIN_SNIPPET_LINES \<le> length [ex_code1, ex_code2, ex_code3, ex_code4, ex_code5]
   \<and> 0 \<le> zero_draws 0 \<and> zero_draws 0 < 1
   \<and> windowSnippet (zero_draws 0) [ex_code1, ex_code2, ex_code3, ex_code4, ex_code5]
       = Some [ex_code1, ex_code2, ex_code3, ex_code4]
   \<and> length [ex_code1, ex_code2, ex_code3, ex_code4] = max 4 (7 * 5 div 10)"
  using C1_window_length [of "[ex_code1, ex_code2, ex_code3, ex_code4, ex_code5]" "zero_draws 0"]
  by (simp add: window_of_five MIN_SNIPPET_LINES_def zero_draws_range)

section \<open>Properties of the velocity aggregator\<close>

lemma js_slice0_take: "0 \<le> e \<Longrightarrow> js_slice xs 0 e = take (nat e) xs"
  by (simp add: js_slice_def Let_def min_def)

lemma map_bump_commits:
  "\<forall>p \<in> set m. 1 \<le> ds_commits (snd p) \<Longrightarrow> \<forall>p \<in> set (map_bump k n m). 1 \<le> ds_commits (snd p)"
  by (induction m) (fastforce split: if_splits)+

lemma map_bump_new:
  "k \<notin> set (map fst m) \<Longrightarrow>
   map_bump k n (m @ [(k, stat)])
     = m @ [(k, stat\<lparr>ds_lines := ds_lines stat + n, ds_commits := ds_commits stat + 1\<rparr>)]"
  by (induction m) auto

lemma map_add_day_commits:
  assumes "\<forall>p \<in> set m. 1 \<le> ds_commits (snd p)"
  shows "\<forall>p \<in> set (map_add_day d n m). 1 \<le> ds_commits (snd p)"
proof (cases "d \<in> set (map fst m)")
  case True
  then have "map_add_day d n m = map_bump d n m"
    by (simp add: map_add_day_def)
  then show ?thesis using map_bump_commits [OF assms] by simp
next
  case False
  then have "map_add_day d n m
      = m @ [(d, \<lparr>ds_lines = 0, ds_commits = 0\<rparr>\<lparr>ds_lines := 0 + n, ds_commits := 0 + 1\<rparr>)]"
    by (simp add: map_add_day_def map_bump_new)
  then show ?thesis using assms by simp
qed

lemma velocity_loop_commits:
  "\<forall>p \<in> set m. 1 \<le> ds_commits (snd p) \<Longrightarrow>
   \<forall>p \<in> set (velocity_loop sel infos m). 1 \<le> ds_commits (snd p)"
proof (induction sel infos m rule: velocity_loop.induct)
  case (1 sel m)
  then show ?case by simp
next
  case (2 sel sampled m)
  then show ?case by simp
next
  case (3 sel info sampled m)
  show ?case
  proof (cases "authorKey (cd_author info) (cd_email info) \<notin> sel")
    case True
    then show ?thesis using 3 by simp
  next
    case False
    have "\<forall>p \<in> set (map_add_day (cd_dateStr info) (count_added (split_nl (cd_diff info)) 0) m).
        1 \<le> ds_commits (snd p)"
      using "3.prems" by (rule map_add_day_commits)
    then show ?thesis using False "3.IH"(2) by simp
  qed
qed

lemma results_of_props:
  assumes "\<forall>p \<in> set m. 1 \<le> ds_commits (snd p)"
  shows "\<forall>d \<in> set (results_of m).
     1 \<le> commits d
     \<and> avgLinesPerCommit d = Math_round (rat_of_nat (linesAdded d) / rat_of_nat (commits d))"
  using assms by (auto simp: results_of_def)

lemma analyze_unfold:
  "analyzeDailyVelocity infos sel =
     take 10 (sort_key (\<lambda>d. - int (linesAdded d))
       (filter (\<lambda>d. linesAdded d > 500)
         (results_of (velocity_loop sel (take SAMPLE_COMMITS infos) []))))"
  by (simp add: analyzeDailyVelocity_def Let_def js_slice0_take)

text \<open>
  C9. Every entry of the list that \<open>analyzeDailyVelocity\<close> returns has
  \<open>linesAdded > 500\<close>, at least one commit and
  \<open>avgLinesPerCommit = round(linesAdded / commits)\<close>; the list is sorted by descending
  \<open>linesAdded\<close> and has at most 10 entries.
\<close>

theorem C9_velocity_output:
  "(\<forall>d \<in> set (analyzeDailyVelocity commitInfos selectedAuthors).
      linesAdded d > 500 \<and> 1 \<le> commits d
      \<and> avgLinesPerCommit d = Math_round (rat_of_nat (linesAdded d) / rat_of_nat (commits d)))
   \<and> sorted_wrt (\<lambda>a b. linesAdded a \<ge> linesAdded b)
        (analyzeDailyVelocity commitInfos selectedAuthors)
   \<and> length (analyzeDailyVelocity commitInfos selectedAuthors) \<le> 10"
proof (intro conjI ballI)
  let ?m = "velocity_loop selectedAuthors (take SAMPLE_COMMITS commitInfos) []"
  let ?f = "filter (\<lambda>d. linesAdded d > 500) (results_of ?m)"
  let ?s = "sort_key (\<lambda>d. - int (linesAdded d)) ?f"
  have m: "\<forall>p \<in> set ?m. 1 \<le> ds_commits (snd p)"
    by (rule velocity_loop_commits) simp
  fix d assume "d \<in> set (analyzeDailyVelocity commitInfos selectedAuthors)"
  then have "d \<in> set ?s" unfolding analyze_unfold by (rule in_set_takeD)
  then have d: "d \<in> set (results_of ?m)" "linesAdded d > 500" by simp_all
  show "linesAdded d > 500" by (rule d(2))
  show "1 \<le> commits d" using results_of_props [OF m] d(1) by blast
  show "avgLinesPerCommit d = Math_round (rat_of_nat (linesAdded d) / rat_of_nat (commits d))"
    using results_of_props [OF m] d(1) by blast
next
  let ?m = "velocity_loop selectedAuthors (take SAMPLE_COMMITS commitInfos) []"
  let ?f = "filter (\<lambda>d. linesAdded d > 500) (results_of ?m)"
  let ?s = "sort_key (\<lambda>d. - int (linesAdded d)) ?f"
  have "sorted (map (\<lambda>d. - int (linesAdded d)) ?s)" by (rule sorted_sort_key)
  then have "sorted_wrt (\<lambda>a b. linesAdded a \<ge> linesAdded b) ?s"
    by (simp add: sorted_map)
  then have "sorted_wrt (\<lambda>a b. linesAdded a \<ge> linesAdded b) (take 10 ?s)"
    by (rule sorted_wrt_take)
  then show "sorted_wrt (\<lambda>a b. linesAdded a \<ge> linesAdded b)
        (analyzeDailyVelocity commitInfos selectedAuthors)"
    by (simp only: analyze_unfold)
next
  show "length (analyzeDailyVelocity commitInfos selectedAuthors) \<le> 10"
    by (simp add: analyze_unfold)
qed

lemma split_nl_line:
  "10 \<notin> set l \<Longrightarrow> split_nl (l @ 10 # rest) = l # split_nl rest"
  by (induction l) auto

lemma count_added_ex_diff:
  "count_added (split_nl (ex_diff n)) k = k + n"
proof (induction n arbitrary: k)
  case 0
  then show ?case by (simp add: ex_diff_def startsWith_def str_def)
next
  case (Suc n)
  have "split_nl (ex_diff (Suc n)) = str ''+x'' # split_nl (ex_diff n)"
    using split_nl_line [of "str ''+x''" "ex_diff n"] by (simp add: ex_diff_def str_def)
  then show ?case using Suc by (simp add: startsWith_def str_def)
qed

lemma ex_velocity:
  "analyzeDailyVelocity ex_commits ex_selected = [ex_day]"
  by (simp add: analyze_unfold ex_commits_def SAMPLE_COMMITS_def ex_commit_def
      ex_other_commit_def ex_selected_def count_added_ex_diff map_add_day_def results_of_def
      Math_round_def ex_day_def authorKey_def str_def floor_eq_iff)

text \<open>C9 at the example commits, whose one high-output day has 600 added lines.\<close>

theorem C9_velocity_output_witness:
  "ex_day \<in> set (analyzeDailyVelocity ex_commits ex_selected)
   \<and> linesAdded ex_day > 500 \<and> 1 \<le> commits ex_day
   \<and> avgLinesPerCommit ex_day
       = Math_round (rat_of_nat (linesAdded ex_day) / rat_of_nat (commits ex_day))
   \<and> length (analyzeDailyVelocity ex_commits ex_selected) \<le> 10"
  using C9_velocity_output [of ex_commits ex_selected]
  by (simp add: ex_velocity)

section \<open>Properties of the deduplicator\<close>

lemma count_same_filter:
  "count_same a b n i k = k + length (filter (\<lambda>j. a ! j = b ! j) [i..<n])"
proof (induction a b n i k rule: count_same.induct)
  case (1 hashA hashB minLen i same)
  show ?case
  proof (cases "i < minLen")
    case True
    then have u: "[i..<minLen] = i # [i + 1..<minLen]"
      by (simp add: upt_conv_Cons)
    show ?thesis
      using True "1.IH" [OF True]
      by (subst count_same.simps) (simp add: u)
  next
    case False
    then show ?thesis by (subst count_same.simps) simp
  qed
qed

lemma isSimilarSnippet_spec:
  "isSimilarSnippet a b = spec_duplicates (hashContent a) (hashContent b)"
  by (simp add: isSimilarSnippet_def Let_def spec_duplicates_def spec_matchRatio_def
      count_same_filter)

lemma dedup_loop_spec:
  assumes "\<forall>s \<in> set snippets. hashOf s = hashContent (contentOf s)"
    and "\<forall>s \<in> set result. hashOf s = hashContent (contentOf s)"
    and "seen = hashOf ` set result"
  shows "dedup_loop hashOf contentOf snippets seen result = spec_dedup hashOf snippets result"
  using assms
proof (induction snippets arbitrary: seen result)
  case Nil
  then show ?case by simp
next
  case (Cons x xs)
  have hx: "hashOf x = hashContent (contentOf x)" using Cons.prems(1) by simp
  have sim: "list_ex (\<lambda>e. isSimilarSnippet (contentOf x) (contentOf e)) result
      = list_ex (\<lambda>e. spec_duplicates (hashOf x) (hashOf e)) result"
    using Cons.prems(2) by (simp add: list_ex_iff isSimilarSnippet_spec hx)
  have xs: "\<forall>s \<in> set xs. hashOf s = hashContent (contentOf s)"
    using Cons.prems(1) by simp
  show ?case
  proof (cases "hashOf x \<in> seen")
    case True
    then obtain e where "e \<in> set result" "hashOf e = hashOf x"
      using Cons.prems(3) by auto
    then have "spec_duplicates (hashOf x) (hashOf e)"
      by (simp add: spec_duplicates_def)
    with \<open>e \<in> set result\<close>
    have "list_ex (\<lambda>e. spec_duplicates (hashOf x) (hashOf e)) result"
      unfolding list_ex_iff by blast
    then show ?thesis
      using True Cons.IH [OF xs Cons.prems(2,3)] by simp
  next
    case False
    show ?thesis
    proof (cases "list_ex (\<lambda>e. spec_duplicates (hashOf x) (hashOf e)) result")
      case True
      then show ?thesis
        using False sim Cons.IH [OF xs Cons.prems(2,3)] by (simp add: Let_def)
    next
      case nd: False
      have r: "\<forall>s \<in> set (result @ [x]). hashOf s = hashContent (contentOf s)"
        using Cons.prems(2) hx by simp
      have s: "insert (hashOf x) seen = hashOf ` set (result @ [x])"
        using Cons.prems(3) by simp
      show ?thesis
        using False nd sim Cons.IH [OF xs r s] by (simp add: Let_def)
    qed
  qed
qed

lemma deduplicateSnippets_spec:
  "\<forall>s \<in> set snippets. hashOf s = hashContent (contentOf s) \<Longrightarrow>
   deduplicateSnippets hashOf contentOf snippets = spec_dedup hashOf snippets []"
  unfolding deduplicateSnippets_def by (rule dedup_loop_spec) simp_all

lemma dedup_same_fingerprint:
  assumes "hashOf s1 = hashContent (contentOf s1)" "hashOf s2 = hashContent (contentOf s2)"
    and "hashContent (contentOf s1) = hashContent (contentOf s2)"
  shows "deduplicateSnippets hashOf contentOf [s1, s2] = [s1]"
proof -
  have "deduplicateSnippets hashOf contentOf [s1, s2] = spec_dedup hashOf [s1, s2] []"
    by (rule deduplicateSnippets_spec) (simp add: assms)
  also have "\<dots> = [s1]"
    using assms by (simp add: spec_duplicates_def)
  finally show ?thesis .
qed

lemma sw_append:
  "same_up_to_ws_runs s t \<Longrightarrow> same_up_to_ws_runs s' t' \<Longrightarrow> same_up_to_ws_runs (s @ s') (t @ t')"
proof (induction rule: same_up_to_ws_runs.induct)
  case sw_nil
  then show ?case by simp
next
  case (sw_char c s t)
  then show ?case by (simp add: same_up_to_ws_runs.sw_char)
next
  case (sw_run u v s t)
  from sw_run.hyps(1-4) sw_run.IH [OF sw_run.prems]
  have "same_up_to_ws_runs (u @ (s @ s')) (v @ (t @ t'))"
    by (rule same_up_to_ws_runs.sw_run)
  then show ?case by simp
qed

lemma sw_ws:
  assumes "u \<noteq> []" "v \<noteq> []" "\<forall>c \<in> set u. is_ws c" "\<forall>c \<in> set v. is_ws c"
  shows "same_up_to_ws_runs u v"
  using sw_run [OF assms sw_nil] by simp

lemma sw_single: "same_up_to_ws_runs [c] [c]"
proof (cases "is_ws c")
  case True
  then show ?thesis by (intro sw_ws) simp_all
next
  case False
  then show ?thesis by (intro sw_char sw_nil)
qed

lemma sw_rev: "same_up_to_ws_runs s t \<Longrightarrow> same_up_to_ws_runs (rev s) (rev t)"
proof (induction rule: same_up_to_ws_runs.induct)
  case sw_nil
  then show ?case by (simp add: same_up_to_ws_runs.sw_nil)
next
  case (sw_char c s t)
  then show ?case by (simp add: sw_append sw_single)
next
  case (sw_run u v s t)
  have "same_up_to_ws_runs (rev u) (rev v)"
    using sw_run.hyps by (intro sw_ws) simp_all
  then show ?case using sw_run.IH by (simp add: sw_append)
qed

lemma sw_dropWhile:
  "same_up_to_ws_runs s t \<Longrightarrow> same_up_to_ws_runs (dropWhile is_ws s) (dropWhile is_ws t)"
proof (induction rule: same_up_to_ws_runs.induct)
  case sw_nil
  then show ?case by (simp add: same_up_to_ws_runs.sw_nil)
next
  case (sw_char c s t)
  then show ?case by (simp add: same_up_to_ws_runs.sw_char)
next
  case (sw_run u v s t)
  then show ?case by simp
qed

lemma sw_trim: "same_up_to_ws_runs s t \<Longrightarrow> same_up_to_ws_runs (trim s) (trim t)"
  unfolding trim_def by (intro sw_rev sw_dropWhile)

lemma collapse_ws_run:
  assumes "u \<noteq> []" "\<forall>c \<in> set u. is_ws c"
  shows "collapse_ws (u @ s) = 32 # collapse_ws (dropWhile is_ws s)"
proof -
  obtain a u' where u: "u = a # u'" using assms(1) by (cases u) auto
  then have "is_ws a" "\<forall>c \<in> set u'. is_ws c" using assms(2) by simp_all
  then show ?thesis by (simp add: u)
qed

lemma sw_collapse:
  "same_up_to_ws_runs s t \<Longrightarrow>
   collapse_ws s = collapse_ws t
   \<and> collapse_ws (dropWhile is_ws s) = collapse_ws (dropWhile is_ws t)"
proof (induction rule: same_up_to_ws_runs.induct)
  case sw_nil
  then show ?case by simp
next
  case (sw_char c s t)
  then show ?case by simp
next
  case (sw_run u v s t)
  then show ?case by (simp add: collapse_ws_run)
qed

lemma sw_join:
  "list_all2 same_up_to_ws_runs a b \<Longrightarrow> same_up_to_ws_runs (join_nl a) (join_nl b)"
proof (induction rule: list_all2_induct)
  case Nil
  then show ?case by (simp add: sw_nil)
next
  case step: (Cons x xs y ys)
  show ?case
  proof (cases xs)
    case Nil
    then have "ys = []" using step.hyps(2) by simp
    then show ?thesis using Nil step.hyps(1) by simp
  next
    case xs: (Cons x' xs')
    then obtain y' ys' where ys: "ys = y' # ys'"
      using step.hyps(2) by (cases ys) auto
    have nl: "same_up_to_ws_runs [10] [10]" by (rule sw_single)
    from nl step.IH have "same_up_to_ws_runs ([10] @ join_nl xs) ([10] @ join_nl ys)"
      by (rule sw_append)
    with step.hyps(1)
    have "same_up_to_ws_runs (x @ [10] @ join_nl xs) (y @ [10] @ join_nl ys)"
      by (rule sw_append)
    then show ?thesis by (simp add: xs ys)
  qed
qed

lemma hashContent_ws_runs:
  "list_all2 same_up_to_ws_runs a b \<Longrightarrow> hashContent a = hashContent b"
  unfolding hashContent_def using sw_collapse [OF sw_trim [OF sw_join]] by simp

lemma codeSnippetsOf_hash:
  "\<forall>s \<in> set (codeSnippetsOf rnd i og blocks). cs_hash s = hashContent (code s)"
  by (induction rnd i og blocks rule: codeSnippetsOf.induct)
     (auto simp: mkCodeSnippet_def split: option.splits)

lemma extracted_hashes:
  "\<forall>s \<in> set (fst (extractSnippetsFromFile rnd og lines)). cs_hash s = hashContent (code s)"
  "\<forall>s \<in> set (snd (extractSnippetsFromFile rnd og lines)).
     cm_hash s = hashContent (comment s)"
  by (auto simp: extractSnippetsFromFile_def Let_def codeSnippetsOf_hash commentSnippetsOf_def
      mkCommentSnippet_def)

text \<open>
  C7. On fragments whose \<open>hash\<close> field is the fingerprint of their content, as are all the
  fragments that \<open>extractSnippetsFromDiff\<close> builds, \<open>deduplicateSnippets\<close> scans in order and
  rejects a fragment exactly when some already accepted fragment is a duplicate of it; two
  fragments are duplicates exactly when their fingerprints are equal or agree at more than 0.8
  of the positions below the shorter length. Hence the same content fed twice leaves one
  fragment, and so do two fragments that differ only in the length of white-space runs.
\<close>

theorem C7_dedup:
  "((\<forall>s \<in> set snippets. hashOf s = hashContent (contentOf s)) \<longrightarrow>
      deduplicateSnippets hashOf contentOf snippets = spec_dedup hashOf snippets [])
   \<and> deduplicateSnippets cs_hash code (fst (extractSnippetsFromFile rnd og lines))
       = spec_dedup cs_hash (fst (extractSnippetsFromFile rnd og lines)) []
   \<and> deduplicateSnippets cm_hash comment (snd (extractSnippetsFromFile rnd og lines))
       = spec_dedup cm_hash (snd (extractSnippetsFromFile rnd og lines)) []
   \<and> isSimilarSnippet a b = spec_duplicates (hashContent a) (hashContent b)
   \<and> (hashOf s1 = hashContent (contentOf s1) \<and> hashOf s2 = hashContent (contentOf s2)
        \<and> contentOf s1 = contentOf s2 \<longrightarrow>
      deduplicateSnippets hashOf contentOf [s1, s2] = [s1])
   \<and> (hashOf s1 = hashContent (contentOf s1) \<and> hashOf s2 = hashContent (contentOf s2)
        \<and> list_all2 same_up_to_ws_runs (contentOf s1) (contentOf s2) \<longrightarrow>
      deduplicateSnippets hashOf contentOf [s1, s2] = [s1])"
proof (intro conjI impI)
  assume "\<forall>s \<in> set snippets. hashOf s = hashContent (contentOf s)"
  then show "deduplicateSnippets hashOf contentOf snippets = spec_dedup hashOf snippets []"
    by (rule deduplicateSnippets_spec)
next
  show "deduplicateSnippets cs_hash code (fst (extractSnippetsFromFile rnd og lines))
       = spec_dedup cs_hash (fst (extractSnippetsFromFile rnd og lines)) []"
    by (rule deduplicateSnippets_spec) (rule extracted_hashes)
next
  show "deduplicateSnippets cm_hash comment (snd (extractSnippetsFromFile rnd og lines))
       = spec_dedup cm_hash (snd (extractSnippetsFromFile rnd og lines)) []"
    by (rule deduplicateSnippets_spec) (rule extracted_hashes)
next
  show "isSimilarSnippet a b = spec_duplicates (hashContent a) (hashContent b)"
    by (rule isSimilarSnippet_spec)
next
  assume "hashOf s1 = hashContent (contentOf s1) \<and> hashOf s2 = hashContent (contentOf s2)
        \<and> contentOf s1 = contentOf s2"
  then show "deduplicateSnippets hashOf contentOf [s1, s2] = [s1]"
    by (intro dedup_same_fingerprint) simp_all
next
  assume "hashOf s1 = hashContent (contentOf s1) \<and> hashOf s2 = hashContent (contentOf s2)
        \<and> list_all2 same_up_to_ws_runs (contentOf s1) (contentOf s2)"
  then show "deduplicateSnippets hashOf contentOf [s1, s2] = [s1]"
    by (intro dedup_same_fingerprint hashContent_ws_runs) simp_all
qed

lemma sw_refl: "same_up_to_ws_runs s s"
proof (induction s)
  case Nil
  then show ?case by (rule sw_nil)
next
  case (Cons c s)
  have "same_up_to_ws_runs ([c] @ s) ([c] @ s)"
    using sw_single Cons by (rule sw_append)
  then show ?case by simp
qed

lemma sw_widen:
  assumes "u \<noteq> []" "v \<noteq> []" "\<forall>c \<in> set u. is_ws c" "\<forall>c \<in> set v. is_ws c"
  shows "same_up_to_ws_runs (a @ u @ b) (a @ v @ b)"
proof -
  have "same_up_to_ws_runs (u @ b) (v @ b)"
    using assms sw_refl by (rule sw_run)
  with sw_refl show ?thesis by (rule sw_append)
qed

lemma ex_wide_narrow: "list_all2 same_up_to_ws_runs (code ex_wide) (code ex_narrow)"
proof -
  have n: "ex_code1 = str ''const'' @ [32] @ str ''total = price * count;''"
    by (simp add: ex_code1_def str_def)
  have "same_up_to_ws_runs ex_code1_wide ex_code1"
    unfolding n ex_code1_wide_def by (rule sw_widen) (simp_all add: is_ws_def)
  then show ?thesis
    by (simp add: ex_wide_def ex_narrow_def mkCodeSnippet_def sw_refl)
qed

text \<open>
  C7 at a fragment fed twice, and at two fragments with different content that differ in the
  length of a run of spaces.
\<close>

theorem C7_dedup_witness:
  "deduplicateSnippets cs_hash code [ex_wide, ex_wide] = spec_dedup cs_hash [ex_wide, ex_wide] []
   \<and> cs_hash ex_wide = hashContent (code ex_wide)
   \<and> cs_hash ex_narrow = hashContent (code ex_narrow)
   \<and> list_all2 same_up_to_ws_runs (code ex_wide) (code ex_narrow)
   \<and> code ex_wide \<noteq> code ex_narrow
   \<and> deduplicateSnippets cs_hash code [ex_wide, ex_wide] = [ex_wide]
   \<and> deduplicateSnippets cs_hash code [ex_wide, ex_narrow] = [ex_wide]"
proof -
  have h: "cs_hash ex_wide = hashContent (code ex_wide)"
    "cs_hash ex_narrow = hashContent (code ex_narrow)"
    by (simp_all add: ex_wide_def ex_narrow_def mkCodeSnippet_def)
  have ne: "code ex_wide \<noteq> code ex_narrow"
    by (simp add: ex_wide_def ex_narrow_def mkCodeSnippet_def ex_code1_wide_def ex_code1_def
        str_def)
  show ?thesis
    using C7_dedup [where snippets = "[ex_wide, ex_wide]" and hashOf = cs_hash
          and contentOf = code and ?s1.0 = ex_wide and ?s2.0 = ex_wide
          and a = "[]" and b = "[]" and rnd = zero_draws and og = example_origin
          and lines = "[]"]
      C7_dedup [where snippets = "[ex_wide, ex_wide]" and hashOf = cs_hash
          and contentOf = code and ?s1.0 = ex_wide and ?s2.0 = ex_narrow
          and a = "[]" and b = "[]" and rnd = zero_draws and og = example_origin
          and lines = "[]"]
    by (simp add: h ne ex_wide_narrow)
qed

end
